theory Spec2Isabelle
  imports Main "HOL-Library.AList" "HOL-Library.Multiset"
begin

section \<open>The task manager of \<open>backend/main.py\<close>\<close>

text \<open>
  The program is a FastAPI application over four module-level globals: the dictionary
  \<open>users_db\<close>, the list \<open>tasks_db\<close> and the two counters \<open>current_user_id\<close> and
  \<open>current_task_id\<close>. Each handler is embedded as a function from the state of these
  globals to a result and the state it leaves behind. A raised \<open>HTTPException\<close> is the
  left summand of the result; the state beside it is the state at the point of the
  \<open>raise\<close>.

  Three things the handlers read from outside the program are arguments of the model:
  the SHA-256 hex digest of \<open>hashlib\<close> (a function \<open>sha256_hex\<close>), the value drawn by
  \<open>secrets.token_hex(32)\<close> (the argument \<open>drawn\<close> of \<open>login\<close>) and the clock reading of
  \<open>datetime.datetime.now()\<close> (the argument \<open>now\<close> of \<open>create_task\<close> and
  \<open>update_task\<close>).
\<close>

subsection \<open>Data model\<close>

text \<open>The pydantic models, with their inheritance. \<open>User.id\<close> and \<open>Task.id\<close> are
  the fields \<open>id_user\<close> and \<open>id_task\<close>; the fields of \<open>LoginRequest\<close> carry the prefix
  \<open>login_\<close>. Python's \<open>int\<close> is \<open>int\<close>; its \<open>str\<close> is \<open>string\<close>, whose characters are
  the code points below 256, and no handler looks inside a string it is given.\<close>

record UserBase =
  email :: string
  name :: string

record UserCreate = UserBase +
  password :: string

record User = UserBase +
  id_user :: int

record LoginRequest =
  login_email :: string
  login_password :: string

record TaskBase =
  title :: string
  description :: "string option"
  priority :: string
  status :: string

type_synonym TaskCreate = TaskBase

record Task = TaskBase +
  id_task :: int
  user_id :: int
  created_at :: string
  updated_at :: string

text \<open>A JSON request body for \<open>TaskCreate\<close> before validation: \<open>title\<close> is required,
  each other field is present (\<open>Some\<close>) or omitted (\<open>None\<close>). Validation fills an omitted
  field with the default declared in \<open>TaskBase\<close>.\<close>

record TaskCreate_body =
  body_title :: string
  body_description :: "string option"
  body_priority :: "string option"
  body_status :: "string option"

definition TaskCreate_validate :: "TaskCreate_body \<Rightarrow> TaskCreate" where
  "TaskCreate_validate b =
     \<lparr>title = body_title b,
      description = (case body_description b of None \<Rightarrow> None | Some d \<Rightarrow> Some d),
      priority = (case body_priority b of None \<Rightarrow> ''media'' | Some p \<Rightarrow> p),
      status = (case body_status b of None \<Rightarrow> ''pendiente'' | Some st \<Rightarrow> st)\<rparr>"

text \<open>The value stored under an email in \<open>users_db\<close>: the keys \<open>"id"\<close>, \<open>"name"\<close>,
  \<open>"password_hash"\<close> and, once a login has set it and until a logout pops it,
  \<open>"token"\<close>.\<close>

record user_data =
  ud_id :: int
  ud_name :: string
  password_hash :: string
  ud_token :: "string option"

text \<open>\<open>users_db\<close> is a Python dictionary, which iterates in insertion order: an
  association list, written with \<open>AList.update\<close> (an existing key keeps its place, a new
  key goes to the end).\<close>

record state =
  users_db :: "(string \<times> user_data) list"
  tasks_db :: "Task list"
  current_user_id :: int
  current_task_id :: int

definition init_state :: state where
  "init_state = \<lparr>users_db = [], tasks_db = [], current_user_id = 1, current_task_id = 1\<rparr>"

subsection \<open>Errors\<close>

datatype HTTPException = HTTPException (status_code: int) (detail: string)

text \<open>The four exceptions the handlers raise, under the names the specification gives
  them. The letter a-acute of the two messages is the character \<open>0xE1\<close>.\<close>

definition DuplicateAccount :: HTTPException where
  "DuplicateAccount = HTTPException 400 ''El usuario ya existe''"

definition InvalidCredentials :: HTTPException where
  "InvalidCredentials = HTTPException 401 (''Credenciales inv'' @ [CHR 0xE1] @ ''lidas'')"

definition InvalidToken :: HTTPException where
  "InvalidToken = HTTPException 401 (''Token inv'' @ [CHR 0xE1] @ ''lido'')"

definition TaskNotFound :: HTTPException where
  "TaskNotFound = HTTPException 404 ''Tarea no encontrada''"

subsection \<open>The clock\<close>

text \<open>A reading of \<open>datetime.datetime.now()\<close> and its rendering by
  \<open>strftime("%Y-%m-%d %H:%M")\<close>: four digits of year, two of each other field, seconds
  and microseconds dropped. The rendering is that of Python for readings whose fields
  lie in their calendar ranges and whose year has four digits, as every reading of the
  clock has.\<close>

record datetime =
  dt_year :: nat
  dt_month :: nat
  dt_day :: nat
  dt_hour :: nat
  dt_minute :: nat
  dt_second :: nat
  dt_microsecond :: nat

definition digit :: "nat \<Rightarrow> char" where
  "digit n = ''0123456789'' ! (n mod 10)"

definition pad2 :: "nat \<Rightarrow> string" where
  "pad2 n = [digit (n div 10), digit n]"

definition pad4 :: "nat \<Rightarrow> string" where
  "pad4 n = [digit (n div 1000), digit (n div 100), digit (n div 10), digit n]"

definition strftime_Ymd_HM :: "datetime \<Rightarrow> string" where
  "strftime_Ymd_HM d =
     pad4 (dt_year d) @ ''-'' @ pad2 (dt_month d) @ ''-'' @ pad2 (dt_day d) @ '' '' @
     pad2 (dt_hour d) @ '':'' @ pad2 (dt_minute d)"

text \<open>What a stamp says: \<open>read_Ymd_HM\<close> reads a string of the shape
  \<open>dddd-dd-dd dd:dd\<close> back into year, month, day, hour and minute. \<open>in_calendar\<close> holds
  of the readings a clock gives (\<open>datetime.MINYEAR\<close> is 1 and \<open>datetime.MAXYEAR\<close> 9999).\<close>

definition in_calendar :: "datetime \<Rightarrow> bool" where
  "in_calendar d \<longleftrightarrow>
     1 \<le> dt_year d \<and> dt_year d \<le> 9999 \<and> 1 \<le> dt_month d \<and> dt_month d \<le> 12 \<and>
     1 \<le> dt_day d \<and> dt_day d \<le> 31 \<and> dt_hour d \<le> 23 \<and> dt_minute d \<le> 59"

definition is_digit :: "char \<Rightarrow> bool" where
  "is_digit c \<longleftrightarrow> c \<in> set ''0123456789''"

definition digit_value :: "char \<Rightarrow> nat" where
  "digit_value c = of_char c - 48"

definition number_of :: "string \<Rightarrow> nat" where
  "number_of cs = foldl (\<lambda>a c. 10 * a + digit_value c) 0 cs"

definition read_Ymd_HM :: "string \<Rightarrow> (nat \<times> nat \<times> nat \<times> nat \<times> nat) option" where
  "read_Ymd_HM st =
     (if length st = 16 \<and> st ! 4 = CHR ''-'' \<and> st ! 7 = CHR ''-'' \<and> st ! 10 = CHR '' '' \<and>
         st ! 13 = CHR '':'' \<and>
         list_all is_digit
           (take 4 st @ take 2 (drop 5 st) @ take 2 (drop 8 st) @ take 2 (drop 11 st) @
            drop 14 st)
      then Some (number_of (take 4 st), number_of (take 2 (drop 5 st)),
                 number_of (take 2 (drop 8 st)), number_of (take 2 (drop 11 st)),
                 number_of (drop 14 st))
      else None)"

subsection \<open>Authentication\<close>

text \<open>\<open>sha256_hex pw\<close> stands for \<open>hashlib.sha256(pw.encode()).hexdigest()\<close>. In
  \<open>verify_user\<close> the test \<open>user_data and ...\<close> asks whether \<open>users_db.get(email)\<close> found
  an entry: a stored entry always has its three keys, so it is never an empty
  dictionary. \<open>register\<close> raises before it writes; the id it returns is the counter's
  value from before the increment.\<close>

definition hash_password :: "(string \<Rightarrow> string) \<Rightarrow> string \<Rightarrow> string" where
  "hash_password sha256_hex pw = sha256_hex pw"

definition verify_user :: "(string \<Rightarrow> string) \<Rightarrow> string \<Rightarrow> string \<Rightarrow> state \<Rightarrow> User option" where
  "verify_user sha256_hex em pw s =
     (case map_of (users_db s) em of
        None \<Rightarrow> None
      | Some ud \<Rightarrow>
          if password_hash ud = hash_password sha256_hex pw
          then Some \<lparr>email = em, name = ud_name ud, id_user = ud_id ud\<rparr>
          else None)"

definition register ::
  "(string \<Rightarrow> string) \<Rightarrow> UserCreate \<Rightarrow> state \<Rightarrow> (HTTPException + string \<times> int) \<times> state" where
  "register sha256_hex user_data s =
     (if email user_data \<in> fst ` set (users_db s) then (Inl DuplicateAccount, s)
      else
        let s1 = s\<lparr>users_db :=
                    AList.update (email user_data)
                      \<lparr>ud_id = current_user_id s, ud_name = name user_data,
                       password_hash = hash_password sha256_hex (password user_data),
                       ud_token = None\<rparr>
                      (users_db s)\<rparr>;
            s2 = s1\<lparr>current_user_id := current_user_id s1 + 1\<rparr>
        in (Inr (''Usuario registrado exitosamente'', current_user_id s2 - 1), s2))"

text \<open>\<open>users_db[login_data.email]["token"] = token\<close> assigns in the dictionary stored
  under the email, which \<open>verify_user\<close> has just found there.\<close>

definition set_token :: "string \<Rightarrow> string \<Rightarrow> (string \<times> user_data) list \<Rightarrow> (string \<times> user_data) list" where
  "set_token em token db =
     map (\<lambda>(k, ud). if k = em then (k, ud\<lparr>ud_token := Some token\<rparr>) else (k, ud)) db"

definition login ::
  "(string \<Rightarrow> string) \<Rightarrow> LoginRequest \<Rightarrow> string \<Rightarrow> state
     \<Rightarrow> (HTTPException + string \<times> string \<times> User) \<times> state" where
  "login sha256_hex login_data drawn s =
     (case verify_user sha256_hex (login_email login_data) (login_password login_data) s of
        None \<Rightarrow> (Inl InvalidCredentials, s)
      | Some user \<Rightarrow>
          (Inr (''Login exitoso'', drawn, user),
           s\<lparr>users_db := set_token (login_email login_data) drawn (users_db s)\<rparr>))"

text \<open>\<open>get_current_user\<close> walks the dictionary in its order and returns at the first
  entry whose token is the given one. An entry without the key \<open>"token"\<close> yields
  \<open>None\<close>, which equals no string.\<close>

fun get_current_user_loop :: "(string \<times> user_data) list \<Rightarrow> string \<Rightarrow> HTTPException + User" where
  "get_current_user_loop [] token = Inl InvalidToken"
| "get_current_user_loop ((em, ud) # rest) token =
     (if ud_token ud = Some token
      then Inr \<lparr>email = em, name = ud_name ud, id_user = ud_id ud\<rparr>
      else get_current_user_loop rest token)"

definition get_current_user :: "string \<Rightarrow> state \<Rightarrow> HTTPException + User" where
  "get_current_user token s = get_current_user_loop (users_db s) token"

text \<open>Some account holds the token: some entry of \<open>users_db\<close> has it under \<open>"token"\<close>.\<close>

definition token_held :: "string \<Rightarrow> state \<Rightarrow> bool" where
  "token_held token s \<longleftrightarrow> (\<exists>(em, ud) \<in> set (users_db s). ud_token ud = Some token)"

fun logout_loop :: "(string \<times> user_data) list \<Rightarrow> string \<Rightarrow> (string \<times> user_data) list option" where
  "logout_loop [] token = None"
| "logout_loop ((em, ud) # rest) token =
     (if ud_token ud = Some token then Some ((em, ud\<lparr>ud_token := None\<rparr>) # rest)
      else map_option (\<lambda>rest'. (em, ud) # rest') (logout_loop rest token))"

definition logout :: "string \<Rightarrow> state \<Rightarrow> (HTTPException + string) \<times> state" where
  "logout token s =
     (case logout_loop (users_db s) token of
        Some db \<Rightarrow> (Inr ''Logout exitoso'', s\<lparr>users_db := db\<rparr>)
      | None \<Rightarrow> (Inl InvalidToken, s))"

subsection \<open>Tasks\<close>

text \<open>\<open>sorted(xs, key=..., reverse=True)\<close> is a stable sort into descending keys:
  elements with equal keys keep their order. That is the stable ascending sort on
  the negated key.\<close>

definition sorted_reverse :: "('a \<Rightarrow> int) \<Rightarrow> 'a list \<Rightarrow> 'a list" where
  "sorted_reverse key xs = sort_key (\<lambda>x. - key x) xs"

definition get_tasks :: "string \<Rightarrow> state \<Rightarrow> (HTTPException + Task list) \<times> state" where
  "get_tasks token s =
     (case get_current_user token s of
        Inl e \<Rightarrow> (Inl e, s)
      | Inr user \<Rightarrow>
          let user_tasks = filter (\<lambda>task. user_id task = id_user user) (tasks_db s)
          in (Inr (sorted_reverse id_task user_tasks), s))"

definition create_task ::
  "TaskCreate \<Rightarrow> string \<Rightarrow> datetime \<Rightarrow> state \<Rightarrow> (HTTPException + Task) \<times> state" where
  "create_task task_data token now s =
     (case get_current_user token s of
        Inl e \<Rightarrow> (Inl e, s)
      | Inr user \<Rightarrow>
          let current_time = strftime_Ymd_HM now;
              new_task = \<lparr>title = title task_data, description = description task_data,
                          priority = priority task_data, status = status task_data,
                          id_task = current_task_id s, user_id = id_user user,
                          created_at = current_time, updated_at = current_time\<rparr>;
              s1 = s\<lparr>tasks_db := tasks_db s @ [new_task]\<rparr>;
              s2 = s1\<lparr>current_task_id := current_task_id s1 + 1\<rparr>
          in (Inr new_task, s2))"

text \<open>The loop of \<open>update_task\<close>: the first task with the given id and owner is
  overwritten in place and returned, with the list as it then is.\<close>

fun update_task_loop ::
  "Task list \<Rightarrow> int \<Rightarrow> User \<Rightarrow> TaskCreate \<Rightarrow> datetime \<Rightarrow> (Task \<times> Task list) option" where
  "update_task_loop [] task_id user task_data now = None"
| "update_task_loop (task # rest) task_id user task_data now =
     (if id_task task = task_id \<and> user_id task = id_user user
      then
        let task' = task\<lparr>title := title task_data, description := description task_data,
                         priority := priority task_data, status := status task_data,
                         updated_at := strftime_Ymd_HM now\<rparr>
        in Some (task', task' # rest)
      else map_option (\<lambda>(r, rest'). (r, task # rest'))
             (update_task_loop rest task_id user task_data now))"

definition update_task ::
  "int \<Rightarrow> TaskCreate \<Rightarrow> string \<Rightarrow> datetime \<Rightarrow> state \<Rightarrow> (HTTPException + Task) \<times> state" where
  "update_task task_id task_data token now s =
     (case get_current_user token s of
        Inl e \<Rightarrow> (Inl e, s)
      | Inr user \<Rightarrow>
          (case update_task_loop (tasks_db s) task_id user task_data now of
             Some (task, db) \<Rightarrow> (Inr task, s\<lparr>tasks_db := db\<rparr>)
           | None \<Rightarrow> (Inl TaskNotFound, s)))"

text \<open>The loop of \<open>delete_task\<close>: the first task with the given id and owner is popped
  from the list and returned.\<close>

fun delete_task_loop :: "Task list \<Rightarrow> int \<Rightarrow> User \<Rightarrow> (Task \<times> Task list) option" where
  "delete_task_loop [] task_id user = None"
| "delete_task_loop (task # rest) task_id user =
     (if id_task task = task_id \<and> user_id task = id_user user then Some (task, rest)
      else map_option (\<lambda>(r, rest'). (r, task # rest')) (delete_task_loop rest task_id user))"

definition delete_task ::
  "int \<Rightarrow> string \<Rightarrow> state \<Rightarrow> (HTTPException + string \<times> Task) \<times> state" where
  "delete_task task_id token s =
     (case get_current_user token s of
        Inl e \<Rightarrow> (Inl e, s)
      | Inr user \<Rightarrow>
          (case delete_task_loop (tasks_db s) task_id user of
             Some (deleted_task, db) \<Rightarrow> (Inr (''Tarea eliminada'', deleted_task), s\<lparr>tasks_db := db\<rparr>)
           | None \<Rightarrow> (Inl TaskNotFound, s)))"

fun get_task_loop :: "Task list \<Rightarrow> int \<Rightarrow> User \<Rightarrow> Task option" where
  "get_task_loop [] task_id user = None"
| "get_task_loop (task # rest) task_id user =
     (if id_task task = task_id \<and> user_id task = id_user user then Some task
      else get_task_loop rest task_id user)"

definition get_task :: "int \<Rightarrow> string \<Rightarrow> state \<Rightarrow> (HTTPException + Task) \<times> state" where
  "get_task task_id token s =
     (case get_current_user token s of
        Inl e \<Rightarrow> (Inl e, s)
      | Inr user \<Rightarrow>
          (case get_task_loop (tasks_db s) task_id user of
             Some task \<Rightarrow> (Inr task, s)
           | None \<Rightarrow> (Inl TaskNotFound, s)))"

subsection \<open>Runs of the service\<close>

text \<open>One call of a handler, with what it reads from outside; \<open>step\<close> is the state
  the call leaves behind and \<open>run\<close> a sequence of calls, one after the other. The
  states of the service are the states \<open>run sha256_hex rs init_state\<close>. (The handler
  \<open>health_check\<close> only reads the two lengths and is left out.)\<close>

datatype request =
    Register UserCreate
  | Login LoginRequest string
  | Logout string
  | GetTasks string
  | CreateTask TaskCreate string datetime
  | UpdateTask int TaskCreate string datetime
  | DeleteTask int string
  | GetTask int string

fun step :: "(string \<Rightarrow> string) \<Rightarrow> request \<Rightarrow> state \<Rightarrow> state" where
  "step sha256_hex (Register user_data) s = snd (register sha256_hex user_data s)"
| "step sha256_hex (Login login_data drawn) s = snd (login sha256_hex login_data drawn s)"
| "step sha256_hex (Logout token) s = snd (logout token s)"
| "step sha256_hex (GetTasks token) s = snd (get_tasks token s)"
| "step sha256_hex (CreateTask task_data token now) s = snd (create_task task_data token now s)"
| "step sha256_hex (UpdateTask task_id task_data token now) s =
     snd (update_task task_id task_data token now s)"
| "step sha256_hex (DeleteTask task_id token) s = snd (delete_task task_id token s)"
| "step sha256_hex (GetTask task_id token) s = snd (get_task task_id token s)"

definition run :: "(string \<Rightarrow> string) \<Rightarrow> request list \<Rightarrow> state \<Rightarrow> state" where
  "run sha256_hex rs s = fold (step sha256_hex) rs s"

subsection \<open>Invariants of the globals\<close>

text \<open>What every run keeps true. Accounts are never removed, so the ids stored in
  \<open>users_db\<close>, read in the dictionary's order, are \<open>1, 2, ...\<close> up to the last one handed
  out, and the emails are distinct as the keys of a dictionary are. The ids of the tasks in
  \<open>tasks_db\<close>, read in the list's order, increase strictly and lie below the counter.\<close>

definition users_inv :: "state \<Rightarrow> bool" where
  "users_inv s \<longleftrightarrow>
     distinct (map fst (users_db s)) \<and>
     map (\<lambda>(em, ud). ud_id ud) (users_db s) = [1..current_user_id s - 1] \<and>
     1 \<le> current_user_id s"

definition tasks_inv :: "state \<Rightarrow> bool" where
  "tasks_inv s \<longleftrightarrow>
     sorted_wrt (<) (map id_task (tasks_db s)) \<and>
     list_all (\<lambda>t. 1 \<le> id_task t \<and> id_task t < current_task_id s) (tasks_db s) \<and>
     1 \<le> current_task_id s"

subsection \<open>A worked run\<close>

text \<open>Two accounts register and log in, then create three tasks between them. The
  digest is a stand-in for SHA-256: string reversal.\<close>

definition example_digest :: "string \<Rightarrow> string" where
  "example_digest pw = rev pw"

definition ann :: UserCreate where
  "ann = \<lparr>email = ''a@x.com'', name = ''Ann'', password = ''pw1''\<rparr>"

definition bob :: UserCreate where
  "bob = \<lparr>email = ''b@x.com'', name = ''Bob'', password = ''pw2''\<rparr>"

definition ann_login :: LoginRequest where
  "ann_login = \<lparr>login_email = ''a@x.com'', login_password = ''pw1''\<rparr>"

definition bob_login :: LoginRequest where
  "bob_login = \<lparr>login_email = ''b@x.com'', login_password = ''pw2''\<rparr>"

definition nine_oh_five :: datetime where
  "nine_oh_five = \<lparr>dt_year = 2024, dt_month = 3, dt_day = 7, dt_hour = 9, dt_minute = 5,
                    dt_second = 59, dt_microsecond = 123456\<rparr>"

definition buy_milk :: TaskCreate_body where
  "buy_milk = \<lparr>body_title = ''Buy milk'', body_description = None, body_priority = None,
                body_status = None\<rparr>"

definition walk_dog :: TaskCreate_body where
  "walk_dog = \<lparr>body_title = ''Walk dog'', body_description = None, body_priority = None,
                body_status = None\<rparr>"

definition pay_rent :: TaskCreate_body where
  "pay_rent = \<lparr>body_title = ''Pay rent'', body_description = Some ''before Friday'',
                body_priority = Some ''alta'', body_status = Some ''en curso''\<rparr>"

definition example_requests :: "request list" where
  "example_requests =
     [Register ann, Register bob, Login ann_login ''T1'', Login bob_login ''T2'',
      CreateTask (TaskCreate_validate buy_milk) ''T1'' nine_oh_five,
      CreateTask (TaskCreate_validate walk_dog) ''T2'' nine_oh_five,
      CreateTask (TaskCreate_validate pay_rent) ''T1'' nine_oh_five]"

definition example_state :: state where
  "example_state =
     \<lparr>users_db =
        [(''a@x.com'', \<lparr>ud_id = 1, ud_name = ''Ann'', password_hash = ''1wp'',
                        ud_token = Some ''T1''\<rparr>),
         (''b@x.com'', \<lparr>ud_id = 2, ud_name = ''Bob'', password_hash = ''2wp'',
                        ud_token = Some ''T2''\<rparr>)],
      tasks_db =
        [\<lparr>title = ''Buy milk'', description = None, priority = ''media'',
          status = ''pendiente'', id_task = 1, user_id = 1,
          created_at = ''2024-03-07 09:05'', updated_at = ''2024-03-07 09:05''\<rparr>,
         \<lparr>title = ''Walk dog'', description = None, priority = ''media'',
          status = ''pendiente'', id_task = 2, user_id = 2,
          created_at = ''2024-03-07 09:05'', updated_at = ''2024-03-07 09:05''\<rparr>,
         \<lparr>title = ''Pay rent'', description = Some ''before Friday'', priority = ''alta'',
          status = ''en curso'', id_task = 3, user_id = 1,
          created_at = ''2024-03-07 09:05'', updated_at = ''2024-03-07 09:05''\<rparr>],
      current_user_id = 3, current_task_id = 4\<rparr>"

text \<open>Two clock readings within the same minute, and a second reading for the worked
  run.\<close>

definition same_minute :: "datetime \<Rightarrow> datetime \<Rightarrow> bool" where
  "same_minute a b \<longleftrightarrow>
     dt_year a = dt_year b \<and> dt_month a = dt_month b \<and> dt_day a = dt_day b \<and>
     dt_hour a = dt_hour b \<and> dt_minute a = dt_minute b"

definition nine_oh_five_sharp :: datetime where
  "nine_oh_five_sharp = \<lparr>dt_year = 2024, dt_month = 3, dt_day = 7, dt_hour = 9, dt_minute = 5,
                          dt_second = 0, dt_microsecond = 7\<rparr>"

text \<open>A third account, not registered in the worked run, and a later clock reading.\<close>

definition carol :: UserCreate where
  "carol = \<lparr>email = ''c@x.com'', name = ''Carol'', password = ''pw3''\<rparr>"

definition half_past_ten :: datetime where
  "half_past_ten = \<lparr>dt_year = 2024, dt_month = 3, dt_day = 7, dt_hour = 10, dt_minute = 30,
                     dt_second = 12, dt_microsecond = 0\<rparr>"

text \<open>An id the counter has handed out and that no task of the list carries any more;
  and the worked run after Ann has deleted her task 3.\<close>

definition id_spent :: "int \<Rightarrow> state \<Rightarrow> bool" where
  "id_spent task_id s \<longleftrightarrow>
     task_id < current_task_id s \<and> list_all (\<lambda>t. id_task t \<noteq> task_id) (tasks_db s)"

definition after_delete :: state where
  "after_delete = snd (delete_task 3 ''T1'' example_state)"

text \<open>For the life of a token: the token a call draws (only \<open>login\<close> draws one), the
  part of an account that no handler changes (id, name and digest), and the statement
  that no account but the one under an email holds a token. Then three calls between
  two logins of Ann in the worked run.\<close>

fun draws :: "request \<Rightarrow> string option" where
  "draws (Login login_data drawn) = Some drawn"
| "draws r = None"

definition account_of :: "string \<Rightarrow> state \<Rightarrow> (int \<times> string \<times> string) option" where
  "account_of em s =
     map_option (\<lambda>ud. (ud_id ud, ud_name ud, password_hash ud)) (map_of (users_db s) em)"

definition held_only_by :: "string \<Rightarrow> string \<Rightarrow> state \<Rightarrow> bool" where
  "held_only_by em token s \<longleftrightarrow>
     list_all (\<lambda>(k, ud). ud_token ud = Some token \<longrightarrow> k = em) (users_db s)"

definition between_logins :: "request list" where
  "between_logins =
     [Login bob_login ''T4'', CreateTask (TaskCreate_validate walk_dog) ''T3'' half_past_ten,
      Logout ''T4'']"

section \<open>Properties\<close>

subsection \<open>The loops\<close>

lemma get_current_user_loop_Inl:
  "get_current_user_loop db token = Inl e \<longleftrightarrow>
     e = InvalidToken \<and> (\<forall>(em, ud) \<in> set db. ud_token ud \<noteq> Some token)"
  by (induction db token rule: get_current_user_loop.induct) auto

lemma get_current_user_loop_Inr:
  "get_current_user_loop db token = Inr u \<Longrightarrow>
     \<exists>ud. (email u, ud) \<in> set db \<and> ud_token ud = Some token \<and>
          name u = ud_name ud \<and> id_user u = ud_id ud"
  by (induction db token rule: get_current_user_loop.induct) (fastforce split: if_splits)+

lemma get_task_loop_None:
  "get_task_loop xs tid u = None \<longleftrightarrow>
     (\<forall>t \<in> set xs. \<not> (id_task t = tid \<and> user_id t = id_user u))"
  by (induction xs) auto

lemma update_task_loop_None:
  "update_task_loop xs tid u d now = None \<longleftrightarrow>
     (\<forall>t \<in> set xs. \<not> (id_task t = tid \<and> user_id t = id_user u))"
  by (induction xs) (auto simp: Let_def)

lemma delete_task_loop_None:
  "delete_task_loop xs tid u = None \<longleftrightarrow>
     (\<forall>t \<in> set xs. \<not> (id_task t = tid \<and> user_id t = id_user u))"
  by (induction xs) auto

lemma get_task_loop_Some:
  "get_task_loop xs tid u = Some t \<Longrightarrow> t \<in> set xs \<and> id_task t = tid \<and> user_id t = id_user u"
  by (induction xs) (auto split: if_splits)

lemma update_task_loop_Some:
  "update_task_loop xs tid u d now = Some (t', db) \<Longrightarrow>
     \<exists>i < length xs. id_task (xs ! i) = tid \<and> user_id (xs ! i) = id_user u \<and>
        (\<forall>j < i. \<not> (id_task (xs ! j) = tid \<and> user_id (xs ! j) = id_user u)) \<and>
        t' = (xs ! i)\<lparr>title := title d, description := description d, priority := priority d,
                     status := status d, updated_at := strftime_Ymd_HM now\<rparr> \<and>
        db = xs[i := t']"
proof (induction xs arbitrary: db)
  case Nil
  then show ?case by simp
next
  case (Cons x xs)
  show ?case
  proof (cases "id_task x = tid \<and> user_id x = id_user u")
    case True
    with Cons.prems show ?thesis
      by (intro exI[of _ 0]) (auto simp: Let_def)
  next
    case False
    with Cons.prems obtain db' where
      rec: "update_task_loop xs tid u d now = Some (t', db')" and db: "db = x # db'"
      by auto
    from Cons.IH[OF rec] obtain i where i: "i < length xs"
      "id_task (xs ! i) = tid" "user_id (xs ! i) = id_user u"
      "\<forall>j < i. \<not> (id_task (xs ! j) = tid \<and> user_id (xs ! j) = id_user u)"
      "t' = (xs ! i)\<lparr>title := title d, description := description d, priority := priority d,
                     status := status d, updated_at := strftime_Ymd_HM now\<rparr>"
      "db' = xs[i := t']"
      by blast
    have "\<forall>j < Suc i. \<not> (id_task ((x # xs) ! j) = tid \<and> user_id ((x # xs) ! j) = id_user u)"
      using False i(4) by (auto simp: nth_Cons split: nat.splits)
    with i db show ?thesis
      by (intro exI[of _ "Suc i"]) simp
  qed
qed

lemma delete_task_loop_Some:
  "delete_task_loop xs tid u = Some (t, db) \<Longrightarrow>
     \<exists>pre post. xs = pre @ t # post \<and> db = pre @ post \<and>
        id_task t = tid \<and> user_id t = id_user u \<and>
        (\<forall>x \<in> set pre. \<not> (id_task x = tid \<and> user_id x = id_user u))"
proof (induction xs arbitrary: db)
  case Nil
  then show ?case by simp
next
  case (Cons x xs)
  show ?case
  proof (cases "id_task x = tid \<and> user_id x = id_user u")
    case True
    with Cons.prems show ?thesis
      by (intro exI[of _ "[]"] exI[of _ xs]) auto
  next
    case False
    with Cons.prems obtain db' where
      rec: "delete_task_loop xs tid u = Some (t, db')" and db: "db = x # db'"
      by auto
    from Cons.IH[OF rec] obtain pre post where
      "xs = pre @ t # post" "db' = pre @ post" "id_task t = tid" "user_id t = id_user u"
      "\<forall>x \<in> set pre. \<not> (id_task x = tid \<and> user_id x = id_user u)"
      by blast
    with False db show ?thesis
      by (intro exI[of _ "x # pre"] exI[of _ post]) auto
  qed
qed

lemma update_fresh_key: "k \<notin> fst ` set db \<Longrightarrow> AList.update k v db = db @ [(k, v)]"
  by (induction db) auto

lemma set_token_keys: "map fst (set_token em token db) = map fst db"
  by (induction db) (auto simp: set_token_def)

lemma set_token_ids: "map (\<lambda>(em, ud). ud_id ud) (set_token em' token db) = map (\<lambda>(em, ud). ud_id ud) db"
  by (induction db) (auto simp: set_token_def)

lemma logout_loop_keys: "logout_loop db token = Some db' \<Longrightarrow> map fst db' = map fst db"
  by (induction db token arbitrary: db' rule: logout_loop.induct) (auto split: if_splits)

lemma logout_loop_ids:
  "logout_loop db token = Some db' \<Longrightarrow>
     map (\<lambda>(em, ud). ud_id ud) db' = map (\<lambda>(em, ud). ud_id ud) db"
  by (induction db token arbitrary: db' rule: logout_loop.induct) (auto split: if_splits)

lemma update_task_loop_ids:
  "update_task_loop xs tid u d now = Some (t', db) \<Longrightarrow> map id_task db = map id_task xs"
  by (induction xs arbitrary: db) (auto simp: Let_def split: if_splits)

lemma users_inv_register: "users_inv s \<Longrightarrow> users_inv (snd (register H ud s))"
  by (auto simp: users_inv_def register_def Let_def update_fresh_key upto_rec2)

lemma users_inv_login: "users_inv s \<Longrightarrow> users_inv (snd (login H ld drawn s))"
  by (auto simp: users_inv_def login_def set_token_keys set_token_ids split: option.splits)

lemma users_inv_logout: "users_inv s \<Longrightarrow> users_inv (snd (logout token s))"
  by (auto simp: users_inv_def logout_def logout_loop_keys logout_loop_ids split: option.splits)

lemma users_inv_create_task: "users_inv s \<Longrightarrow> users_inv (snd (create_task d token now s))"
  by (auto simp: users_inv_def create_task_def Let_def split: sum.splits)

lemma users_inv_update_task: "users_inv s \<Longrightarrow> users_inv (snd (update_task tid d token now s))"
  by (auto simp: users_inv_def update_task_def split: sum.splits option.splits)

lemma users_inv_delete_task: "users_inv s \<Longrightarrow> users_inv (snd (delete_task tid token s))"
  by (auto simp: users_inv_def delete_task_def split: sum.splits option.splits)

lemma get_tasks_state: "snd (get_tasks token s) = s"
  by (simp add: get_tasks_def Let_def split: sum.splits)

lemma get_task_state: "snd (get_task tid token s) = s"
  by (simp add: get_task_def split: sum.splits option.splits)

lemma users_inv_step: "users_inv s \<Longrightarrow> users_inv (step H r s)"
  by (cases r)
     (simp_all add: users_inv_register users_inv_login users_inv_logout users_inv_create_task
        users_inv_update_task users_inv_delete_task get_tasks_state get_task_state)

lemma tasks_inv_register: "tasks_inv s \<Longrightarrow> tasks_inv (snd (register H ud s))"
  by (auto simp: tasks_inv_def register_def Let_def)

lemma tasks_inv_login: "tasks_inv s \<Longrightarrow> tasks_inv (snd (login H ld drawn s))"
  by (auto simp: tasks_inv_def login_def split: option.splits)

lemma tasks_inv_logout: "tasks_inv s \<Longrightarrow> tasks_inv (snd (logout token s))"
  by (auto simp: tasks_inv_def logout_def split: option.splits)

lemma tasks_inv_create_task: "tasks_inv s \<Longrightarrow> tasks_inv (snd (create_task d token now s))"
  by (auto simp: tasks_inv_def create_task_def Let_def sorted_wrt_append list_all_iff
           split: sum.splits)

lemma tasks_inv_update_task: "tasks_inv s \<Longrightarrow> tasks_inv (snd (update_task tid d token now s))"
proof (cases "get_current_user token s")
  case (Inl e)
  assume "tasks_inv s"
  with Inl show ?thesis by (simp add: update_task_def)
next
  case (Inr u)
  assume inv: "tasks_inv s"
  show ?thesis
  proof (cases "update_task_loop (tasks_db s) tid u d now")
    case None
    with Inr inv show ?thesis by (simp add: update_task_def)
  next
    case (Some p)
    then obtain t' db where p: "update_task_loop (tasks_db s) tid u d now = Some (t', db)"
      by (cases p) auto
    from update_task_loop_ids[OF p] have ids: "map id_task db = map id_task (tasks_db s)" .
    have "list_all (\<lambda>t. 1 \<le> id_task t \<and> id_task t < current_task_id s) db
          \<longleftrightarrow> list_all (\<lambda>i. 1 \<le> i \<and> i < current_task_id s) (map id_task db)"
      by (simp add: list_all_iff)
    also have "\<dots> \<longleftrightarrow> list_all (\<lambda>t. 1 \<le> id_task t \<and> id_task t < current_task_id s) (tasks_db s)"
      by (simp add: ids list_all_iff)
    finally show ?thesis
      using inv Inr p ids by (simp add: update_task_def tasks_inv_def)
  qed
qed

lemma tasks_inv_delete_task: "tasks_inv s \<Longrightarrow> tasks_inv (snd (delete_task tid token s))"
proof (cases "get_current_user token s")
  case (Inl e)
  assume "tasks_inv s"
  with Inl show ?thesis by (simp add: delete_task_def)
next
  case (Inr u)
  assume inv: "tasks_inv s"
  show ?thesis
  proof (cases "delete_task_loop (tasks_db s) tid u")
    case None
    with Inr inv show ?thesis by (simp add: delete_task_def)
  next
    case (Some p)
    then obtain t db where p: "delete_task_loop (tasks_db s) tid u = Some (t, db)"
      by (cases p) auto
    from delete_task_loop_Some[OF p] obtain pre post where
      "tasks_db s = pre @ t # post" "db = pre @ post"
      by blast
    with inv Inr p show ?thesis
      by (auto simp: delete_task_def tasks_inv_def sorted_wrt_append)
  qed
qed

lemma tasks_inv_step: "tasks_inv s \<Longrightarrow> tasks_inv (step H r s)"
  by (cases r)
     (simp_all add: tasks_inv_register tasks_inv_login tasks_inv_logout tasks_inv_create_task
        tasks_inv_update_task tasks_inv_delete_task get_tasks_state get_task_state)

lemma users_inv_run: "users_inv s \<Longrightarrow> users_inv (run H rs s)"
  by (induction rs arbitrary: s) (simp_all add: run_def users_inv_step)

lemma tasks_inv_run: "tasks_inv s \<Longrightarrow> tasks_inv (run H rs s)"
  by (induction rs arbitrary: s) (simp_all add: run_def tasks_inv_step)

lemma users_inv_init: "users_inv init_state"
  by (simp add: users_inv_def init_state_def)

lemma tasks_inv_init: "tasks_inv init_state"
  by (simp add: tasks_inv_def init_state_def)

subsection \<open>Facts shared by the properties below\<close>

lemma get_current_user_unheld:
  "\<not> token_held token s \<Longrightarrow> get_current_user token s = Inl InvalidToken"
  by (auto simp: token_held_def get_current_user_def get_current_user_loop_Inl)

lemma get_current_user_entry:
  "get_current_user token s = Inr user \<Longrightarrow>
     \<exists>ud. (email user, ud) \<in> set (users_db s) \<and> ud_token ud = Some token \<and>
          name user = ud_name ud \<and> id_user user = ud_id ud"
  unfolding get_current_user_def by (rule get_current_user_loop_Inr)

lemma no_match_not_found:
  assumes "get_current_user token s = Inr user"
      and "\<forall>x \<in> set (tasks_db s). \<not> (id_task x = task_id \<and> user_id x = id_user user)"
  shows "get_task task_id token s = (Inl TaskNotFound, s)"
    and "update_task task_id task_data token now s = (Inl TaskNotFound, s)"
    and "delete_task task_id token s = (Inl TaskNotFound, s)"
proof -
  from assms(2) have "get_task_loop (tasks_db s) task_id user = None"
    "update_task_loop (tasks_db s) task_id user task_data now = None"
    "delete_task_loop (tasks_db s) task_id user = None"
    by (simp_all add: get_task_loop_None update_task_loop_None delete_task_loop_None)
  with assms(1) show "get_task task_id token s = (Inl TaskNotFound, s)"
    and "update_task task_id task_data token now s = (Inl TaskNotFound, s)"
    and "delete_task task_id token s = (Inl TaskNotFound, s)"
    by (simp_all add: get_task_def update_task_def delete_task_def)
qed

lemma run_task_ids:
  "sorted_wrt (<) (map id_task (tasks_db (run H rs init_state))) \<and>
   (\<forall>t \<in> set (tasks_db (run H rs init_state)).
      1 \<le> id_task t \<and> id_task t < current_task_id (run H rs init_state))"
  using tasks_inv_run[OF tasks_inv_init, of H rs]
  by (simp add: tasks_inv_def list_all_iff)

lemma run_user_ids:
  "distinct (map fst (users_db (run H rs init_state))) \<and>
   map (\<lambda>(em, ud). ud_id ud) (users_db (run H rs init_state))
     = [1..current_user_id (run H rs init_state) - 1]"
  using users_inv_run[OF users_inv_init, of H rs]
  by (simp add: users_inv_def)

lemma strftime_same_minute: "same_minute a b \<Longrightarrow> strftime_Ymd_HM a = strftime_Ymd_HM b"
  by (simp add: same_minute_def strftime_Ymd_HM_def)

subsection \<open>The worked run, evaluated\<close>

lemmas example_defs =
  ann_def bob_def ann_login_def bob_login_def nine_oh_five_def buy_milk_def walk_dog_def
  pay_rent_def example_digest_def

lemmas handler_defs =
  register_def login_def logout_def verify_user_def hash_password_def set_token_def
  get_current_user_def get_tasks_def create_task_def update_task_def delete_task_def
  get_task_def TaskCreate_validate_def strftime_Ymd_HM_def pad2_def pad4_def digit_def

lemma example_run: "run example_digest example_requests init_state = example_state"
  by (simp add: run_def example_requests_def example_state_def init_state_def example_defs
        handler_defs Let_def)

subsection \<open>Token resolution\<close>

text \<open>
  \<^bold>\<open>C4.\<close> With a token that no account holds, each of the five task handlers raises
  \<open>InvalidToken\<close> (status 401) and leaves the whole state, so the task list and both
  counters, as it was.
\<close>

theorem C4_unheld_token_is_rejected:
  assumes "\<not> token_held token s"
  shows "get_tasks token s = (Inl InvalidToken, s) \<and>
         create_task task_data token now s = (Inl InvalidToken, s) \<and>
         get_task task_id token s = (Inl InvalidToken, s) \<and>
         update_task task_id task_data token now s = (Inl InvalidToken, s) \<and>
         delete_task task_id token s = (Inl InvalidToken, s)"
  using get_current_user_unheld[OF assms]
  by (simp add: get_tasks_def create_task_def get_task_def update_task_def delete_task_def)

theorem C4_unheld_token_is_rejected_witness:
  "\<not> token_held ''T9'' example_state \<and>
   get_tasks ''T9'' example_state = (Inl InvalidToken, example_state) \<and>
   create_task (TaskCreate_validate buy_milk) ''T9'' nine_oh_five example_state
     = (Inl InvalidToken, example_state) \<and>
   get_task 1 ''T9'' example_state = (Inl InvalidToken, example_state) \<and>
   update_task 1 (TaskCreate_validate buy_milk) ''T9'' nine_oh_five example_state
     = (Inl InvalidToken, example_state) \<and>
   delete_task 1 ''T9'' example_state = (Inl InvalidToken, example_state) \<and>
   status_code InvalidToken = 401"
proof -
  have h: "\<not> token_held ''T9'' example_state"
    by (simp add: token_held_def example_state_def)
  have "status_code InvalidToken = 401"
    by (simp add: InvalidToken_def)
  with h C4_unheld_token_is_rejected[OF h, of "TaskCreate_validate buy_milk" nine_oh_five 1]
  show ?thesis by simp
qed

subsection \<open>Defaults of the request model\<close>

text \<open>
  \<^bold>\<open>C5\<close>, as stated, fails: the defaults declared in \<open>TaskBase\<close> are the Spanish words
  \<open>"media"\<close> and \<open>"pendiente"\<close>. Ann creates a task from a body with only a title; its
  priority is not \<open>"medium"\<close> and its status is not \<open>"pending"\<close>.
\<close>

theorem C5_counterexample:
  "fst (create_task
          (TaskCreate_validate
             \<lparr>body_title = ''Buy milk'', body_description = None, body_priority = None,
              body_status = None\<rparr>)
          ''T1'' nine_oh_five example_state) =
     Inr \<lparr>title = ''Buy milk'', description = None, priority = ''media'',
          status = ''pendiente'', id_task = 4, user_id = 1,
          created_at = ''2024-03-07 09:05'', updated_at = ''2024-03-07 09:05''\<rparr> \<and>
   ''media'' \<noteq> ''medium'' \<and> ''pendiente'' \<noteq> ''pending''"
  by (simp add: example_state_def example_defs handler_defs Let_def)

text \<open>
  \<^bold>\<open>C5\<close>, amended: a creation from a body that omits \<open>priority\<close> and \<open>status\<close>, with a
  token that resolves, succeeds, and the task it returns and appends has priority
  \<open>"media"\<close> and status \<open>"pendiente"\<close>.
\<close>

theorem C5_omitted_priority_and_status_defaults:
  assumes "get_current_user token s = Inr user"
      and "body_priority b = None" and "body_status b = None"
  shows "\<exists>t s'. create_task (TaskCreate_validate b) token now s = (Inr t, s') \<and>
           priority t = ''media'' \<and> status t = ''pendiente'' \<and>
           tasks_db s' = tasks_db s @ [t]"
  using assms by (simp add: create_task_def TaskCreate_validate_def Let_def)

theorem C5_omitted_priority_and_status_defaults_witness:
  "get_current_user ''T1'' example_state
     = Inr \<lparr>email = ''a@x.com'', name = ''Ann'', id_user = 1\<rparr> \<and>
   body_priority buy_milk = None \<and> body_status buy_milk = None \<and>
   (\<exists>t s'. create_task (TaskCreate_validate buy_milk) ''T1'' nine_oh_five example_state
              = (Inr t, s') \<and>
      priority t = ''media'' \<and> status t = ''pendiente'' \<and>
      tasks_db s' = tasks_db example_state @ [t])"
proof -
  have h1: "get_current_user ''T1'' example_state
              = Inr \<lparr>email = ''a@x.com'', name = ''Ann'', id_user = 1\<rparr>"
    by (simp add: example_state_def get_current_user_def)
  have h2: "body_priority buy_milk = None" and h3: "body_status buy_milk = None"
    by (simp_all add: buy_milk_def)
  from C5_omitted_priority_and_status_defaults[OF h1 h2 h3, of nine_oh_five] h1 h2 h3
  show ?thesis by blast
qed

subsection \<open>Task creation\<close>

lemma digit_cases:
  "k < 10 \<Longrightarrow> k = 0 \<or> k = 1 \<or> k = 2 \<or> k = 3 \<or> k = 4 \<or> k = 5 \<or> k = 6 \<or> k = 7 \<or> k = 8 \<or> k = (9::nat)"
  by arith

lemma digit_value_digit: "digit_value (digit k) = k mod 10"
proof -
  have "k mod 10 < 10" by simp
  from digit_cases[OF this] show ?thesis
    by (auto simp: digit_def digit_value_def)
qed

lemma is_digit_digit: "is_digit (digit k)"
proof -
  have "k mod 10 < 10" by simp
  from digit_cases[OF this] show ?thesis
    by (auto simp: digit_def is_digit_def)
qed



lemma two_digits: "n < 100 \<Longrightarrow> 10 * (n div 10 mod 10) + n mod 10 = (n::nat)"
  by simp

lemma four_digits:
  assumes "n < 10000"
  shows "10 * (10 * (10 * (n div 1000 mod 10) + n div 100 mod 10) + n div 10 mod 10) + n mod 10
           = (n::nat)"
proof -
  have d2: "n div 100 = n div 10 div 10" and d3: "n div 1000 = n div 10 div 10 div 10"
    by (simp_all add: div_mult2_eq)
  from assms have "n div 1000 < 10" by simp
  then have top: "n div 1000 mod 10 = n div 1000" by simp
  have "10 * (n div 1000) + n div 100 mod 10 = n div 100"
    unfolding d2 d3 by simp
  moreover have "10 * (n div 100) + n div 10 mod 10 = n div 10"
    unfolding d2 by simp
  moreover have "10 * (n div 10) + n mod 10 = n"
    by simp
  ultimately show ?thesis
    unfolding top by simp
qed

lemma number_of_pad2: "n < 100 \<Longrightarrow> number_of (pad2 n) = n"
  by (simp add: number_of_def pad2_def digit_value_digit two_digits)

lemma number_of_pad4: "n < 10000 \<Longrightarrow> number_of (pad4 n) = n"
  using four_digits[of n] by (simp add: number_of_def pad4_def digit_value_digit)


lemma strftime_parts:
  "take 4 (strftime_Ymd_HM d) = pad4 (dt_year d)"
  "take 2 (drop 5 (strftime_Ymd_HM d)) = pad2 (dt_month d)"
  "take 2 (drop 8 (strftime_Ymd_HM d)) = pad2 (dt_day d)"
  "take 2 (drop 11 (strftime_Ymd_HM d)) = pad2 (dt_hour d)"
  "drop 14 (strftime_Ymd_HM d) = pad2 (dt_minute d)"
  "length (strftime_Ymd_HM d) = 16"
  "strftime_Ymd_HM d ! 4 = CHR ''-''" "strftime_Ymd_HM d ! 7 = CHR ''-''"
  "strftime_Ymd_HM d ! 10 = CHR '' ''" "strftime_Ymd_HM d ! 13 = CHR '':''"
  by (simp_all add: strftime_Ymd_HM_def pad4_def pad2_def)

lemma pad_digits: "list_all is_digit (pad4 n)" "list_all is_digit (pad2 n)"
  by (simp_all add: pad4_def pad2_def is_digit_digit)

lemma read_strftime:
  assumes "in_calendar d"
  shows "read_Ymd_HM (strftime_Ymd_HM d) =
           Some (dt_year d, dt_month d, dt_day d, dt_hour d, dt_minute d)"
proof -
  from assms have "dt_year d < 10000" "dt_month d < 100" "dt_day d < 100" "dt_hour d < 100"
    "dt_minute d < 100"
    by (simp_all add: in_calendar_def)
  then show ?thesis
    unfolding read_Ymd_HM_def strftime_parts
    by (simp add: number_of_pad2 number_of_pad4 pad_digits)
qed

lemma strftime_minute_inj:
  assumes "in_calendar a" and "in_calendar b" and "strftime_Ymd_HM a = strftime_Ymd_HM b"
  shows "same_minute a b"
  using read_strftime[OF assms(1)] read_strftime[OF assms(2)] assms(3)
  by (simp add: same_minute_def)

text \<open>
  \<^bold>\<open>C8.\<close> The counter \<open>current_task_id\<close> starts at 1. A creation with a token that
  resolves returns the new task, whose id is the counter's value whatever the account,
  whose two timestamps are both the rendering of the clock reading, and which is appended
  to \<open>tasks_db\<close>; the counter goes up by exactly 1. The rendering is the current time at
  minute resolution: read back, it gives the year, month, day, hour and minute of the
  reading; two readings within the same minute give the same result; and two readings
  with the same rendering lie within the same minute. Hence in every state of the
  service the ids in \<open>tasks_db\<close>, in the order of the list (the order of creation, as
  creation appends and neither update nor deletion reorders), increase strictly, are
  pairwise distinct, and lie below the next id to be assigned.
\<close>

theorem C8_create_task_assigns_next_id:
  assumes "get_current_user token s = Inr user"
      and "same_minute now now'"
      and "r = run H rs init_state"
  shows "current_task_id init_state = 1 \<and>
         create_task task_data token now s =
           (Inr \<lparr>title = title task_data, description = description task_data,
                 priority = priority task_data, status = status task_data,
                 id_task = current_task_id s, user_id = id_user user,
                 created_at = strftime_Ymd_HM now, updated_at = strftime_Ymd_HM now\<rparr>,
            s\<lparr>tasks_db := tasks_db s @
                  [\<lparr>title = title task_data, description = description task_data,
                    priority = priority task_data, status = status task_data,
                    id_task = current_task_id s, user_id = id_user user,
                    created_at = strftime_Ymd_HM now, updated_at = strftime_Ymd_HM now\<rparr>],
               current_task_id := current_task_id s + 1\<rparr>) \<and>
         (in_calendar now \<longrightarrow>
            read_Ymd_HM (strftime_Ymd_HM now) =
              Some (dt_year now, dt_month now, dt_day now, dt_hour now, dt_minute now)) \<and>
         create_task task_data token now' s = create_task task_data token now s \<and>
         (in_calendar now \<and> in_calendar other \<and>
            strftime_Ymd_HM now = strftime_Ymd_HM other \<longrightarrow> same_minute now other) \<and>
         sorted_wrt (<) (map id_task (tasks_db r)) \<and>
         distinct (map id_task (tasks_db r)) \<and>
         (\<forall>t \<in> set (tasks_db r). id_task t < current_task_id r)"
proof -
  have "current_task_id init_state = 1"
    by (simp add: init_state_def)
  moreover have "create_task task_data token now s =
           (Inr \<lparr>title = title task_data, description = description task_data,
                 priority = priority task_data, status = status task_data,
                 id_task = current_task_id s, user_id = id_user user,
                 created_at = strftime_Ymd_HM now, updated_at = strftime_Ymd_HM now\<rparr>,
            s\<lparr>tasks_db := tasks_db s @
                  [\<lparr>title = title task_data, description = description task_data,
                    priority = priority task_data, status = status task_data,
                    id_task = current_task_id s, user_id = id_user user,
                    created_at = strftime_Ymd_HM now, updated_at = strftime_Ymd_HM now\<rparr>],
               current_task_id := current_task_id s + 1\<rparr>)"
    using assms(1) by (simp add: create_task_def Let_def)
  moreover have "in_calendar now \<longrightarrow>
            read_Ymd_HM (strftime_Ymd_HM now) =
              Some (dt_year now, dt_month now, dt_day now, dt_hour now, dt_minute now)"
    by (simp add: read_strftime)
  moreover have "in_calendar now \<and> in_calendar other \<and>
            strftime_Ymd_HM now = strftime_Ymd_HM other \<longrightarrow> same_minute now other"
    by (simp add: strftime_minute_inj)
  moreover have "create_task task_data token now' s = create_task task_data token now s"
    by (simp only: create_task_def strftime_same_minute[OF assms(2)])
  moreover have "sorted_wrt (<) (map id_task (tasks_db r))"
    using run_task_ids[of H rs] assms(3) by simp
  moreover from this have "distinct (map id_task (tasks_db r))"
    by (simp add: strict_sorted_iff)
  moreover have "\<forall>t \<in> set (tasks_db r). id_task t < current_task_id r"
    using run_task_ids[of H rs] assms(3) by simp
  ultimately show ?thesis by blast
qed


theorem C8_create_task_assigns_next_id_witness:
  "get_current_user ''T2'' example_state
     = Inr \<lparr>email = ''b@x.com'', name = ''Bob'', id_user = 2\<rparr> \<and>
   same_minute nine_oh_five nine_oh_five_sharp \<and>
   example_state = run example_digest example_requests init_state \<and>
   in_calendar nine_oh_five \<and> in_calendar nine_oh_five_sharp \<and>
   strftime_Ymd_HM nine_oh_five = strftime_Ymd_HM nine_oh_five_sharp \<and>
   create_task (TaskCreate_validate walk_dog) ''T2'' nine_oh_five example_state =
     (Inr \<lparr>title = ''Walk dog'', description = None, priority = ''media'',
           status = ''pendiente'', id_task = 4, user_id = 2,
           created_at = ''2024-03-07 09:05'', updated_at = ''2024-03-07 09:05''\<rparr>,
      example_state\<lparr>tasks_db := tasks_db example_state @
          [\<lparr>title = ''Walk dog'', description = None, priority = ''media'',
            status = ''pendiente'', id_task = 4, user_id = 2,
            created_at = ''2024-03-07 09:05'', updated_at = ''2024-03-07 09:05''\<rparr>],
        current_task_id := 5\<rparr>) \<and>
   read_Ymd_HM ''2024-03-07 09:05'' = Some (2024, 3, 7, 9, 5) \<and>
   create_task (TaskCreate_validate walk_dog) ''T2'' nine_oh_five_sharp example_state =
     create_task (TaskCreate_validate walk_dog) ''T2'' nine_oh_five example_state \<and>
   map id_task (tasks_db example_state) = [1, 2, 3]"
proof -
  have h1: "get_current_user ''T2'' example_state
              = Inr \<lparr>email = ''b@x.com'', name = ''Bob'', id_user = 2\<rparr>"
    by (simp add: example_state_def get_current_user_def)
  have h2: "same_minute nine_oh_five nine_oh_five_sharp"
    by (simp add: same_minute_def nine_oh_five_def nine_oh_five_sharp_def)
  have h3: "example_state = run example_digest example_requests init_state"
    by (simp add: example_run)
  have cal: "in_calendar nine_oh_five" "in_calendar nine_oh_five_sharp"
    by (simp_all add: in_calendar_def nine_oh_five_def nine_oh_five_sharp_def)
  have ids: "map id_task (tasks_db example_state) = [1, 2, 3]"
    by (simp add: example_state_def)
  have stamp: "strftime_Ymd_HM nine_oh_five = ''2024-03-07 09:05''"
    by (simp add: nine_oh_five_def strftime_Ymd_HM_def pad2_def pad4_def digit_def)
  have stamp': "strftime_Ymd_HM nine_oh_five_sharp = ''2024-03-07 09:05''"
    by (simp add: nine_oh_five_sharp_def strftime_Ymd_HM_def pad2_def pad4_def digit_def)
  have fields: "dt_year nine_oh_five = 2024" "dt_month nine_oh_five = 3"
    "dt_day nine_oh_five = 7" "dt_hour nine_oh_five = 9" "dt_minute nine_oh_five = 5"
    by (simp_all add: nine_oh_five_def)
  have cur: "current_task_id example_state = 4"
    by (simp add: example_state_def)
  note inst = C8_create_task_assigns_next_id[OF h1 h2 h3,
      where task_data = "TaskCreate_validate walk_dog" and other = nine_oh_five_sharp]
  from inst
  have "create_task (TaskCreate_validate walk_dog) ''T2'' nine_oh_five example_state =
     (Inr \<lparr>title = ''Walk dog'', description = None, priority = ''media'',
           status = ''pendiente'', id_task = 4, user_id = 2,
           created_at = ''2024-03-07 09:05'', updated_at = ''2024-03-07 09:05''\<rparr>,
      example_state\<lparr>tasks_db := tasks_db example_state @
          [\<lparr>title = ''Walk dog'', description = None, priority = ''media'',
            status = ''pendiente'', id_task = 4, user_id = 2,
            created_at = ''2024-03-07 09:05'', updated_at = ''2024-03-07 09:05''\<rparr>],
        current_task_id := 5\<rparr>)"
    and "create_task (TaskCreate_validate walk_dog) ''T2'' nine_oh_five_sharp example_state =
     create_task (TaskCreate_validate walk_dog) ''T2'' nine_oh_five example_state"
    by (simp_all add: stamp cur TaskCreate_validate_def walk_dog_def)
  moreover from inst cal(1)
  have "read_Ymd_HM ''2024-03-07 09:05'' = Some (2024, 3, 7, 9, 5)"
    by (simp add: stamp fields)
  moreover have "strftime_Ymd_HM nine_oh_five = strftime_Ymd_HM nine_oh_five_sharp"
    by (simp add: stamp stamp')
  ultimately show ?thesis
    using h1 h2 h3 cal ids by (intro conjI)
qed

subsection \<open>Listing\<close>

lemma insort_key_last:
  "\<forall>y \<in> set ys. f y < f x \<Longrightarrow> insort_key f x ys = ys @ [x]"
  by (induction ys) auto

lemma sort_key_neg_ascending:
  "sorted_wrt (<) (map f xs) \<Longrightarrow> sort_key (\<lambda>x. - f x) xs = rev xs" for f :: "'a \<Rightarrow> int"
proof (induction xs)
  case Nil
  then show ?case by simp
next
  case (Cons x xs)
  then have "\<forall>y \<in> set (rev xs). - f y < - f x" by auto
  from insort_key_last[of "rev xs" "\<lambda>x. - f x" x, OF this] Cons show ?case
    by simp
qed

lemma sorted_reverse_descending:
  assumes "distinct (map key xs)"
  shows "sorted_wrt (\<lambda>a b. key b < key a) (sorted_reverse key xs)"
proof -
  let ?ys = "sorted_reverse key xs"
  let ?nk = "\<lambda>x. - key x"
  have "mset (map ?nk ?ys) = mset (map ?nk xs)"
    by (simp add: sorted_reverse_def)
  moreover have "distinct (map ?nk xs)"
    using assms by (simp add: distinct_map inj_on_def)
  ultimately have "distinct (map ?nk ?ys)"
    by (metis mset_eq_imp_distinct_iff)
  moreover have "sorted (map ?nk ?ys)"
    by (simp add: sorted_reverse_def)
  ultimately have "sorted_wrt (<) (map ?nk ?ys)"
    by (simp add: strict_sorted_iff)
  then show ?thesis
    by (simp add: sorted_wrt_map)
qed

text \<open>
  \<^bold>\<open>C3.\<close> In every state of the service and for every token that resolves, \<open>get_tasks\<close>
  returns exactly the tasks of \<open>tasks_db\<close> whose \<open>user_id\<close> is the caller's id, each as
  often as it is there, in strictly descending order of id, and leaves the state as it
  was. As the ids in \<open>tasks_db\<close> increase strictly, the result is the caller's tasks in
  the reverse order of the list.
\<close>

theorem C3_get_tasks_own_descending:
  assumes "s = run H rs init_state"
      and "get_current_user token s = Inr user"
  shows "\<exists>ts. get_tasks token s = (Inr ts, s) \<and>
           mset ts = mset (filter (\<lambda>task. user_id task = id_user user) (tasks_db s)) \<and>
           sorted_wrt (\<lambda>a b. id_task b < id_task a) ts \<and>
           ts = rev (filter (\<lambda>task. user_id task = id_user user) (tasks_db s))"
proof -
  let ?own = "filter (\<lambda>task. user_id task = id_user user) (tasks_db s)"
  have asc: "sorted_wrt (<) (map id_task (tasks_db s))"
    using run_task_ids[of H rs] assms(1) by simp
  then have "distinct (map id_task (tasks_db s))"
    by (simp add: strict_sorted_iff)
  then have dist: "distinct (map id_task ?own)"
    by (rule distinct_map_filter)
  have "sorted_wrt (<) (map id_task ?own)"
    using asc by (simp add: sorted_wrt_map sorted_wrt_filter)
  then have rev: "sorted_reverse id_task ?own = rev ?own"
    unfolding sorted_reverse_def by (rule sort_key_neg_ascending)
  have res: "get_tasks token s = (Inr (sorted_reverse id_task ?own), s)"
    using assms(2) by (simp add: get_tasks_def)
  have "mset (sorted_reverse id_task ?own) = mset ?own"
    by (simp add: sorted_reverse_def)
  with res rev sorted_reverse_descending[OF dist] show ?thesis
    by auto
qed

theorem C3_get_tasks_own_descending_witness:
  "example_state = run example_digest example_requests init_state \<and>
   get_current_user ''T1'' example_state
     = Inr \<lparr>email = ''a@x.com'', name = ''Ann'', id_user = 1\<rparr> \<and>
   (\<exists>ts. get_tasks ''T1'' example_state = (Inr ts, example_state) \<and>
      map id_task ts = [3, 1] \<and> map user_id ts = [1, 1])"
proof -
  have h1: "example_state = run example_digest example_requests init_state"
    by (simp add: example_run)
  have h2: "get_current_user ''T1'' example_state
              = Inr \<lparr>email = ''a@x.com'', name = ''Ann'', id_user = 1\<rparr>"
    by (simp add: example_state_def get_current_user_def)
  from C3_get_tasks_own_descending[OF h1 h2] obtain ts where
    "get_tasks ''T1'' example_state = (Inr ts, example_state)"
    "ts = rev (filter (\<lambda>task. user_id task = id_user \<lparr>email = ''a@x.com'', name = ''Ann'', id_user = 1\<rparr>)
                (tasks_db example_state))"
    by blast
  moreover from this(2) have "map id_task ts = [3, 1]" "map user_id ts = [1, 1]"
    by (simp_all add: example_state_def)
  ultimately show ?thesis using h1 h2 by (intro conjI exI[of _ ts])
qed

subsection \<open>Registration\<close>

text \<open>
  \<^bold>\<open>C6.\<close> In every state of the service: registering an email that is a key of
  \<open>users_db\<close> raises \<open>DuplicateAccount\<close> (status 400) and leaves the whole state, so the
  stored account and the counter, as it was. Registering any other email returns the
  counter's value as the new id, appends the account with that id and no token, and
  raises the counter by 1; every id already stored is below the new one, the stored ids
  being \<open>1, 2, ...\<close> in the order of registration.
\<close>

theorem C6_register_duplicate_or_fresh:
  assumes "s = run H rs init_state"
  shows "(email user_data \<in> fst ` set (users_db s) \<longrightarrow>
            register H user_data s = (Inl DuplicateAccount, s)) \<and>
         (email user_data \<notin> fst ` set (users_db s) \<longrightarrow>
            register H user_data s =
              (Inr (''Usuario registrado exitosamente'', current_user_id s),
               s\<lparr>users_db := users_db s @
                     [(email user_data,
                       \<lparr>ud_id = current_user_id s, ud_name = name user_data,
                        password_hash = hash_password H (password user_data),
                        ud_token = None\<rparr>)],
                  current_user_id := current_user_id s + 1\<rparr>) \<and>
            (\<forall>(em, ud) \<in> set (users_db s). ud_id ud < current_user_id s) \<and>
            map (\<lambda>(em, ud). ud_id ud) (users_db s) = [1..current_user_id s - 1])"
proof -
  have ids: "map (\<lambda>(em, ud). ud_id ud) (users_db s) = [1..current_user_id s - 1]"
    using run_user_ids[of H rs] assms by simp
  have "ud_id ud < current_user_id s" if "(em, ud) \<in> set (users_db s)" for em ud
  proof -
    from that have "ud_id ud \<in> set (map (\<lambda>(em, ud). ud_id ud) (users_db s))"
      by force
    then show ?thesis
      by (simp add: ids)
  qed
  with ids show ?thesis
    by (auto simp: register_def Let_def update_fresh_key)
qed

theorem C6_register_duplicate_or_fresh_witness:
  "example_state = run example_digest example_requests init_state \<and>
   email ann \<in> fst ` set (users_db example_state) \<and>
   register example_digest ann example_state = (Inl DuplicateAccount, example_state) \<and>
   status_code DuplicateAccount = 400 \<and>
   email carol \<notin> fst ` set (users_db example_state) \<and>
   register example_digest carol example_state =
     (Inr (''Usuario registrado exitosamente'', 3),
      example_state\<lparr>users_db := users_db example_state @
            [(''c@x.com'', \<lparr>ud_id = 3, ud_name = ''Carol'', password_hash = ''3wp'',
                            ud_token = None\<rparr>)],
         current_user_id := 4\<rparr>) \<and>
   map (\<lambda>(em, ud). ud_id ud) (users_db example_state) = [1, 2]"
proof -
  have h: "example_state = run example_digest example_requests init_state"
    by (simp add: example_run)
  have a: "email ann \<in> fst ` set (users_db example_state)"
    by (simp add: ann_def example_state_def)
  have c: "email carol \<notin> fst ` set (users_db example_state)"
    by (simp add: carol_def example_state_def)
  have cur: "current_user_id example_state = 3"
    by (simp add: example_state_def)
  have code: "status_code DuplicateAccount = 400"
    by (simp add: DuplicateAccount_def)
  have ids: "map (\<lambda>(em, ud). ud_id ud) (users_db example_state) = [1, 2]"
    by (simp add: example_state_def)
  from C6_register_duplicate_or_fresh[OF h, of ann] a
  have dup: "register example_digest ann example_state = (Inl DuplicateAccount, example_state)"
    by simp
  from C6_register_duplicate_or_fresh[OF h, of carol] c
  have "register example_digest carol example_state =
     (Inr (''Usuario registrado exitosamente'', 3),
      example_state\<lparr>users_db := users_db example_state @
            [(''c@x.com'', \<lparr>ud_id = 3, ud_name = ''Carol'', password_hash = ''3wp'',
                            ud_token = None\<rparr>)],
         current_user_id := 4\<rparr>)"
    by (simp add: cur carol_def hash_password_def example_digest_def)
  with h a c dup code ids show ?thesis
    by (intro conjI)
qed

subsection \<open>Update\<close>

text \<open>
  \<^bold>\<open>C9.\<close> When \<open>update_task\<close> succeeds, the caller's token resolved to the owner of the
  task at some position \<open>i\<close> of \<open>tasks_db\<close> that has the given id. The task returned is
  that task with \<open>title\<close>, \<open>description\<close>, \<open>priority\<close>, \<open>status\<close> and \<open>updated_at\<close>
  overwritten, so its \<open>id\<close>, \<open>user_id\<close> and \<open>created_at\<close> are the old ones. The new state
  is the old one with position \<open>i\<close> of \<open>tasks_db\<close> replaced by the task returned: every
  other task, \<open>users_db\<close> and both counters are as they were.
\<close>

theorem C9_update_task_frame:
  assumes "update_task task_id task_data token now s = (Inr t', s')"
  shows "\<exists>i user.
           i < length (tasks_db s) \<and>
           get_current_user token s = Inr user \<and>
           id_task (tasks_db s ! i) = task_id \<and>
           user_id (tasks_db s ! i) = id_user user \<and>
           t' = (tasks_db s ! i)
                  \<lparr>title := title task_data, description := description task_data,
                   priority := priority task_data, status := status task_data,
                   updated_at := strftime_Ymd_HM now\<rparr> \<and>
           id_task t' = id_task (tasks_db s ! i) \<and>
           user_id t' = user_id (tasks_db s ! i) \<and>
           created_at t' = created_at (tasks_db s ! i) \<and>
           s' = s\<lparr>tasks_db := (tasks_db s)[i := t']\<rparr> \<and>
           length (tasks_db s') = length (tasks_db s) \<and>
           (\<forall>j < length (tasks_db s). j \<noteq> i \<longrightarrow> tasks_db s' ! j = tasks_db s ! j)"
proof -
  from assms obtain user where user: "get_current_user token s = Inr user"
    by (auto simp: update_task_def split: sum.splits)
  with assms obtain db where
    loop: "update_task_loop (tasks_db s) task_id user task_data now = Some (t', db)"
    and s': "s' = s\<lparr>tasks_db := db\<rparr>"
    by (auto simp: update_task_def split: option.splits)
  from update_task_loop_Some[OF loop] obtain i where
    "i < length (tasks_db s)" "id_task (tasks_db s ! i) = task_id"
    "user_id (tasks_db s ! i) = id_user user"
    "t' = (tasks_db s ! i)
                  \<lparr>title := title task_data, description := description task_data,
                   priority := priority task_data, status := status task_data,
                   updated_at := strftime_Ymd_HM now\<rparr>"
    "db = (tasks_db s)[i := t']"
    by blast
  with user s' show ?thesis
    by (intro exI[of _ i] exI[of _ user]) simp
qed

lemma example_update:
  "update_task 3 (TaskCreate_validate buy_milk) ''T1'' half_past_ten example_state =
     (Inr \<lparr>title = ''Buy milk'', description = None, priority = ''media'',
           status = ''pendiente'', id_task = 3, user_id = 1,
           created_at = ''2024-03-07 09:05'', updated_at = ''2024-03-07 10:30''\<rparr>,
      example_state\<lparr>tasks_db :=
        [\<lparr>title = ''Buy milk'', description = None, priority = ''media'',
          status = ''pendiente'', id_task = 1, user_id = 1,
          created_at = ''2024-03-07 09:05'', updated_at = ''2024-03-07 09:05''\<rparr>,
         \<lparr>title = ''Walk dog'', description = None, priority = ''media'',
          status = ''pendiente'', id_task = 2, user_id = 2,
          created_at = ''2024-03-07 09:05'', updated_at = ''2024-03-07 09:05''\<rparr>,
         \<lparr>title = ''Buy milk'', description = None, priority = ''media'',
          status = ''pendiente'', id_task = 3, user_id = 1,
          created_at = ''2024-03-07 09:05'', updated_at = ''2024-03-07 10:30''\<rparr>]\<rparr>)"
  by (simp add: example_state_def example_defs half_past_ten_def handler_defs Let_def)

theorem C9_update_task_frame_witness:
  "update_task 3 (TaskCreate_validate buy_milk) ''T1'' half_past_ten example_state =
     (Inr \<lparr>title = ''Buy milk'', description = None, priority = ''media'',
           status = ''pendiente'', id_task = 3, user_id = 1,
           created_at = ''2024-03-07 09:05'', updated_at = ''2024-03-07 10:30''\<rparr>,
      example_state\<lparr>tasks_db :=
        [\<lparr>title = ''Buy milk'', description = None, priority = ''media'',
          status = ''pendiente'', id_task = 1, user_id = 1,
          created_at = ''2024-03-07 09:05'', updated_at = ''2024-03-07 09:05''\<rparr>,
         \<lparr>title = ''Walk dog'', description = None, priority = ''media'',
          status = ''pendiente'', id_task = 2, user_id = 2,
          created_at = ''2024-03-07 09:05'', updated_at = ''2024-03-07 09:05''\<rparr>,
         \<lparr>title = ''Buy milk'', description = None, priority = ''media'',
          status = ''pendiente'', id_task = 3, user_id = 1,
          created_at = ''2024-03-07 09:05'', updated_at = ''2024-03-07 10:30''\<rparr>]\<rparr>) \<and>
   (\<exists>i user. i < length (tasks_db example_state) \<and>
      get_current_user ''T1'' example_state = Inr user \<and>
      id_task (tasks_db example_state ! i) = 3 \<and>
      user_id (tasks_db example_state ! i) = id_user user \<and>
      created_at (tasks_db example_state ! i) = ''2024-03-07 09:05'')"
proof -
  note upd = example_update
  from C9_update_task_frame[OF upd] obtain i user where
    "i < length (tasks_db example_state)" "get_current_user ''T1'' example_state = Inr user"
    "id_task (tasks_db example_state ! i) = 3"
    "user_id (tasks_db example_state ! i) = id_user user"
    "''2024-03-07 09:05'' = created_at (tasks_db example_state ! i)"
    by auto
  then have "\<exists>i user. i < length (tasks_db example_state) \<and>
      get_current_user ''T1'' example_state = Inr user \<and>
      id_task (tasks_db example_state ! i) = 3 \<and>
      user_id (tasks_db example_state ! i) = id_user user \<and>
      created_at (tasks_db example_state ! i) = ''2024-03-07 09:05''"
    by (intro exI[of _ i] exI[of _ user]) simp
  with upd show ?thesis by (intro conjI)
qed

lemma update_task_loop_hit:
  assumes "t \<in> set xs" and "id_task t = tid" and "user_id t = id_user u"
  shows "\<exists>t' db. update_task_loop xs tid u d now = Some (t', db) \<and> t' \<in> set db \<and>
           title t' = title d \<and> description t' = description d \<and>
           priority t' = priority d \<and> status t' = status d \<and>
           updated_at t' = strftime_Ymd_HM now"
proof (cases "update_task_loop xs tid u d now")
  case None
  with assms show ?thesis
    by (auto simp: update_task_loop_None)
next
  case (Some p)
  obtain t' db where p: "p = (t', db)" by (cases p)
  from update_task_loop_Some[OF Some[unfolded p]] obtain i where
    "i < length xs" "db = xs[i := t']"
    "t' = (xs ! i)\<lparr>title := title d, description := description d, priority := priority d,
                     status := status d, updated_at := strftime_Ymd_HM now\<rparr>"
    by blast
  with Some p show ?thesis
    by (auto simp: set_update_memI)
qed

lemma overwritten_task:
  "task\<lparr>title := a, description := b, priority := c, status := d, updated_at := e\<rparr> =
     \<lparr>title = a, description = b, priority = c, status = d, id_task = id_task task,
      user_id = user_id task, created_at = created_at task, updated_at = e\<rparr>"
  by (cases task) simp

text \<open>
  \<^bold>\<open>C10.\<close> An update of a task the caller owns, from a request body \<open>b\<close>, succeeds.
  It overwrites the first task of \<open>tasks_db\<close> with the given id and owner, at some
  position \<open>i\<close>; where the ids of the list are distinct, as in every state of the
  service, that is the task \<open>t\<close> itself. The task returned has the given id and owner,
  the old \<open>created_at\<close>, and otherwise only what the validated body and the clock say,
  whatever the task had before: an omitted description becomes \<open>None\<close>, an omitted
  priority \<open>"media"\<close> and an omitted status \<open>"pendiente"\<close>, the defaults declared in
  \<open>TaskBase\<close>. The new state is the old one with position \<open>i\<close> of \<open>tasks_db\<close> replaced by
  the task returned: the list keeps its length, the old entry is gone, and every other
  position is as it was.
\<close>

theorem C10_update_replaces_omitted_fields:
  assumes "get_current_user token s = Inr user"
      and "t \<in> set (tasks_db s)" and "id_task t = task_id" and "user_id t = id_user user"
  shows "\<exists>i t' s'.
           i < length (tasks_db s) \<and>
           id_task (tasks_db s ! i) = task_id \<and> user_id (tasks_db s ! i) = id_user user \<and>
           (distinct (map id_task (tasks_db s)) \<longrightarrow> tasks_db s ! i = t) \<and>
           (s = run H rs init_state \<longrightarrow> tasks_db s ! i = t) \<and>
           update_task task_id (TaskCreate_validate b) token now s = (Inr t', s') \<and>
           t' = \<lparr>title = body_title b, description = body_description b,
                 priority = (case body_priority b of None \<Rightarrow> ''media'' | Some p \<Rightarrow> p),
                 status = (case body_status b of None \<Rightarrow> ''pendiente'' | Some st \<Rightarrow> st),
                 id_task = task_id, user_id = id_user user,
                 created_at = created_at (tasks_db s ! i),
                 updated_at = strftime_Ymd_HM now\<rparr> \<and>
           s' = s\<lparr>tasks_db := (tasks_db s)[i := t']\<rparr> \<and>
           tasks_db s' ! i = t' \<and> t' \<in> set (tasks_db s') \<and>
           length (tasks_db s') = length (tasks_db s) \<and>
           (\<forall>j < length (tasks_db s). j \<noteq> i \<longrightarrow> tasks_db s' ! j = tasks_db s ! j) \<and>
           title t' = body_title b \<and>
           description t' = body_description b \<and>
           (body_description b = None \<longrightarrow> description t' = None) \<and>
           priority t' = (case body_priority b of None \<Rightarrow> ''media'' | Some p \<Rightarrow> p) \<and>
           (body_priority b = None \<longrightarrow> priority t' = ''media'') \<and>
           status t' = (case body_status b of None \<Rightarrow> ''pendiente'' | Some st \<Rightarrow> st) \<and>
           (body_status b = None \<longrightarrow> status t' = ''pendiente'')"
proof -
  let ?d = "TaskCreate_validate b"
  let ?xs = "tasks_db s"
  from update_task_loop_hit[OF assms(2-4), of ?d now] obtain t' db where
    loop: "update_task_loop ?xs task_id user ?d now = Some (t', db)"
    by blast
  from update_task_loop_Some[OF loop] obtain i where
    i: "i < length ?xs" "id_task (?xs ! i) = task_id" "user_id (?xs ! i) = id_user user"
    and t': "t' = (?xs ! i)\<lparr>title := title ?d, description := description ?d,
                   priority := priority ?d, status := status ?d,
                   updated_at := strftime_Ymd_HM now\<rparr>"
    and db: "db = ?xs[i := t']"
    by blast
  have res: "update_task task_id ?d token now s = (Inr t', s\<lparr>tasks_db := db\<rparr>)"
    using assms(1) loop by (simp add: update_task_def)
  have lit: "t' = \<lparr>title = body_title b, description = body_description b,
                 priority = (case body_priority b of None \<Rightarrow> ''media'' | Some p \<Rightarrow> p),
                 status = (case body_status b of None \<Rightarrow> ''pendiente'' | Some st \<Rightarrow> st),
                 id_task = task_id, user_id = id_user user,
                 created_at = created_at (?xs ! i),
                 updated_at = strftime_Ymd_HM now\<rparr>"
    unfolding t' overwritten_task using i(2,3)
    by (simp add: TaskCreate_validate_def split: option.splits)
  have same: "?xs ! i = t" if "distinct (map id_task ?xs)"
  proof -
    from that have "inj_on id_task (set ?xs)"
      by (simp add: distinct_map)
    moreover have "?xs ! i \<in> set ?xs"
      using i(1) by simp
    ultimately show ?thesis
      using assms(2,3) i(2) by (auto simp: inj_on_def)
  qed
  have reach: "?xs ! i = t" if "s = run H rs init_state"
  proof -
    from that have "sorted_wrt (<) (map id_task ?xs)"
      using run_task_ids[of H rs] by simp
    then show ?thesis
      by (intro same) (simp add: strict_sorted_iff)
  qed
  have mem: "t' \<in> set db" and nth: "db ! i = t'" and len: "length db = length ?xs"
    and others: "\<forall>j < length ?xs. j \<noteq> i \<longrightarrow> db ! j = ?xs ! j"
    using i(1) db by (simp_all add: set_update_memI)
  have fields: "title t' = body_title b" "description t' = body_description b"
    "priority t' = (case body_priority b of None \<Rightarrow> ''media'' | Some p \<Rightarrow> p)"
    "status t' = (case body_status b of None \<Rightarrow> ''pendiente'' | Some st \<Rightarrow> st)"
    by (simp_all add: lit)
  have defaults: "body_description b = None \<longrightarrow> description t' = None"
    "body_priority b = None \<longrightarrow> priority t' = ''media''"
    "body_status b = None \<longrightarrow> status t' = ''pendiente''"
    by (simp_all add: fields)
  from i same reach res lit db mem nth len others fields defaults show ?thesis
    by (intro exI[of _ i] exI[of _ t'] exI[of _ "s\<lparr>tasks_db := db\<rparr>"]) simp
qed

theorem C10_update_replaces_omitted_fields_witness:
  "get_current_user ''T1'' example_state
     = Inr \<lparr>email = ''a@x.com'', name = ''Ann'', id_user = 1\<rparr> \<and>
   tasks_db example_state ! 2 \<in> set (tasks_db example_state) \<and>
   tasks_db example_state ! 2 =
     \<lparr>title = ''Pay rent'', description = Some ''before Friday'', priority = ''alta'',
      status = ''en curso'', id_task = 3, user_id = 1,
      created_at = ''2024-03-07 09:05'', updated_at = ''2024-03-07 09:05''\<rparr> \<and>
   body_description buy_milk = None \<and> body_priority buy_milk = None \<and>
   body_status buy_milk = None \<and>
   update_task 3 (TaskCreate_validate buy_milk) ''T1'' half_past_ten example_state =
     (Inr \<lparr>title = ''Buy milk'', description = None, priority = ''media'',
           status = ''pendiente'', id_task = 3, user_id = 1,
           created_at = ''2024-03-07 09:05'', updated_at = ''2024-03-07 10:30''\<rparr>,
      example_state\<lparr>tasks_db := (tasks_db example_state)
        [2 := \<lparr>title = ''Buy milk'', description = None, priority = ''media'',
               status = ''pendiente'', id_task = 3, user_id = 1,
               created_at = ''2024-03-07 09:05'', updated_at = ''2024-03-07 10:30''\<rparr>]\<rparr>) \<and>
   map id_task
     (tasks_db (snd (update_task 3 (TaskCreate_validate buy_milk) ''T1'' half_past_ten
        example_state))) = [1, 2, 3] \<and>
   map priority
     (tasks_db (snd (update_task 3 (TaskCreate_validate buy_milk) ''T1'' half_past_ten
        example_state))) = [''media'', ''media'', ''media'']"
proof -
  let ?old = "\<lparr>title = ''Pay rent'', description = Some ''before Friday'', priority = ''alta'',
      status = ''en curso'', id_task = 3, user_id = 1,
      created_at = ''2024-03-07 09:05'', updated_at = ''2024-03-07 09:05''\<rparr>"
  let ?new = "\<lparr>title = ''Buy milk'', description = None, priority = ''media'',
           status = ''pendiente'', id_task = 3, user_id = 1,
           created_at = ''2024-03-07 09:05'', updated_at = ''2024-03-07 10:30''\<rparr>"
  have h1: "get_current_user ''T1'' example_state
              = Inr \<lparr>email = ''a@x.com'', name = ''Ann'', id_user = 1\<rparr>"
    by (simp add: example_state_def get_current_user_def)
  have h2: "tasks_db example_state ! 2 \<in> set (tasks_db example_state)"
    and h3: "id_task (tasks_db example_state ! 2) = 3"
    and h4: "user_id (tasks_db example_state ! 2)
               = id_user \<lparr>email = ''a@x.com'', name = ''Ann'', id_user = 1\<rparr>"
    and old: "tasks_db example_state ! 2 = ?old"
    and dist: "distinct (map id_task (tasks_db example_state))"
    by (simp_all add: example_state_def)
  have b: "body_description buy_milk = None" "body_priority buy_milk = None"
    "body_status buy_milk = None" "body_title buy_milk = ''Buy milk''"
    by (simp_all add: buy_milk_def)
  have stamp: "strftime_Ymd_HM half_past_ten = ''2024-03-07 10:30''"
    by (simp add: half_past_ten_def strftime_Ymd_HM_def pad2_def pad4_def digit_def)
  from C10_update_replaces_omitted_fields[OF h1 h2 h3 h4,
      where b = buy_milk and now = half_past_ten and H = example_digest
        and rs = example_requests]
  obtain i t' s' where
    at: "distinct (map id_task (tasks_db example_state))
          \<longrightarrow> tasks_db example_state ! i = tasks_db example_state ! 2"
    and i: "i < length (tasks_db example_state)"
    and res: "update_task 3 (TaskCreate_validate buy_milk) ''T1'' half_past_ten example_state
                = (Inr t', s')"
    and t': "t' = \<lparr>title = body_title buy_milk, description = body_description buy_milk,
                 priority = (case body_priority buy_milk of None \<Rightarrow> ''media'' | Some p \<Rightarrow> p),
                 status = (case body_status buy_milk of None \<Rightarrow> ''pendiente'' | Some st \<Rightarrow> st),
                 id_task = 3, user_id = id_user \<lparr>email = ''a@x.com'', name = ''Ann'', id_user = 1\<rparr>,
                 created_at = created_at (tasks_db example_state ! i),
                 updated_at = strftime_Ymd_HM half_past_ten\<rparr>"
    and s': "s' = example_state\<lparr>tasks_db := (tasks_db example_state)[i := t']\<rparr>"
    by blast
  from at dist have same: "tasks_db example_state ! i = ?old"
    by (simp add: old)
  have "i = 2"
  proof -
    from i have "i = 0 \<or> i = 1 \<or> i = 2"
      by (auto simp: example_state_def)
    with same show ?thesis
      by (auto simp: example_state_def)
  qed
  with t' same have new: "t' = ?new"
    by (simp add: b stamp)
  with res s' \<open>i = 2\<close>
  have upd: "update_task 3 (TaskCreate_validate buy_milk) ''T1'' half_past_ten example_state =
     (Inr ?new, example_state\<lparr>tasks_db := (tasks_db example_state)[2 := ?new]\<rparr>)"
    by simp
  then have "map id_task
     (tasks_db (snd (update_task 3 (TaskCreate_validate buy_milk) ''T1'' half_past_ten
        example_state))) = [1, 2, 3]"
    "map priority
     (tasks_db (snd (update_task 3 (TaskCreate_validate buy_milk) ''T1'' half_past_ten
        example_state))) = [''media'', ''media'', ''media'']"
    by (simp_all add: example_state_def)
  with h1 h2 old b upd show ?thesis
    by (intro conjI)
qed

subsection \<open>Isolation between accounts\<close>

text \<open>
  \<^bold>\<open>C1.\<close> In every state of the service, let a task of \<open>tasks_db\<close> carry the id of the
  account stored under the email \<open>emA\<close>, and let a token resolve to an account with
  another email. Then \<open>get_task\<close>, \<open>update_task\<close> and \<open>delete_task\<close> on the task's id with
  that token raise \<open>TaskNotFound\<close> (status 404) and leave the whole state, so the task
  and the task list, as it was.
\<close>

theorem C1_other_account_gets_not_found:
  assumes "s = run H rs init_state"
      and "(emA, udA) \<in> set (users_db s)"
      and "t \<in> set (tasks_db s)" and "user_id t = ud_id udA"
      and "get_current_user tokenB s = Inr userB" and "email userB \<noteq> emA"
  shows "get_task (id_task t) tokenB s = (Inl TaskNotFound, s) \<and>
         update_task (id_task t) task_data tokenB now s = (Inl TaskNotFound, s) \<and>
         delete_task (id_task t) tokenB s = (Inl TaskNotFound, s)"
proof -
  from get_current_user_entry[OF assms(5)] obtain udB where
    B: "(email userB, udB) \<in> set (users_db s)" "id_user userB = ud_id udB"
    by blast
  have "distinct (map (\<lambda>(em, ud). ud_id ud) (users_db s))"
    using run_user_ids[of H rs] assms(1) by simp
  then have "inj_on (\<lambda>(em, ud). ud_id ud) (set (users_db s))"
    by (simp add: distinct_map)
  with assms(2,6) B(1) have "ud_id udA \<noteq> ud_id udB"
    by (auto simp: inj_on_def)
  with assms(4) B(2) have other: "user_id t \<noteq> id_user userB"
    by simp
  have "sorted_wrt (<) (map id_task (tasks_db s))"
    using run_task_ids[of H rs] assms(1) by simp
  then have "inj_on id_task (set (tasks_db s))"
    by (simp add: strict_sorted_iff distinct_map)
  with assms(3) have "x = t" if "x \<in> set (tasks_db s)" "id_task x = id_task t" for x
    using that by (auto simp: inj_on_def)
  with other have
    "\<forall>x \<in> set (tasks_db s). \<not> (id_task x = id_task t \<and> user_id x = id_user userB)"
    by auto
  from no_match_not_found[OF assms(5) this] show ?thesis
    by simp
qed

theorem C1_other_account_gets_not_found_witness:
  "example_state = run example_digest example_requests init_state \<and>
   users_db example_state ! 0 \<in> set (users_db example_state) \<and>
   fst (users_db example_state ! 0) = ''a@x.com'' \<and>
   tasks_db example_state ! 2 \<in> set (tasks_db example_state) \<and>
   user_id (tasks_db example_state ! 2) = ud_id (snd (users_db example_state ! 0)) \<and>
   id_task (tasks_db example_state ! 2) = 3 \<and>
   get_current_user ''T2'' example_state
     = Inr \<lparr>email = ''b@x.com'', name = ''Bob'', id_user = 2\<rparr> \<and>
   get_task 3 ''T2'' example_state = (Inl TaskNotFound, example_state) \<and>
   update_task 3 (TaskCreate_validate buy_milk) ''T2'' half_past_ten example_state
     = (Inl TaskNotFound, example_state) \<and>
   delete_task 3 ''T2'' example_state = (Inl TaskNotFound, example_state) \<and>
   status_code TaskNotFound = 404"
proof -
  have h1: "example_state = run example_digest example_requests init_state"
    by (simp add: example_run)
  have h2: "(''a@x.com'', snd (users_db example_state ! 0)) \<in> set (users_db example_state)"
    and h3: "tasks_db example_state ! 2 \<in> set (tasks_db example_state)"
    and h4: "user_id (tasks_db example_state ! 2) = ud_id (snd (users_db example_state ! 0))"
    and id3: "id_task (tasks_db example_state ! 2) = 3"
    and a0: "users_db example_state ! 0 \<in> set (users_db example_state)"
      "fst (users_db example_state ! 0) = ''a@x.com''"
    by (simp_all add: example_state_def)
  have h5: "get_current_user ''T2'' example_state
              = Inr \<lparr>email = ''b@x.com'', name = ''Bob'', id_user = 2\<rparr>"
    by (simp add: example_state_def get_current_user_def)
  have h6: "email \<lparr>email = ''b@x.com'', name = ''Bob'', id_user = 2\<rparr> \<noteq> ''a@x.com''"
    by simp
  have code: "status_code TaskNotFound = 404"
    by (simp add: TaskNotFound_def)
  from C1_other_account_gets_not_found[OF h1 h2 h3 h4 h5 h6,
      of "TaskCreate_validate buy_milk" half_past_ten]
  have "get_task 3 ''T2'' example_state = (Inl TaskNotFound, example_state)"
    "update_task 3 (TaskCreate_validate buy_milk) ''T2'' half_past_ten example_state
       = (Inl TaskNotFound, example_state)"
    "delete_task 3 ''T2'' example_state = (Inl TaskNotFound, example_state)"
    by (simp_all add: id3)
  with h1 a0 h3 h4 id3 h5 code show ?thesis
    by (intro conjI)
qed

subsection \<open>Deletion\<close>

lemma id_spent_register: "id_spent i s \<Longrightarrow> id_spent i (snd (register H ud s))"
  by (auto simp: id_spent_def register_def Let_def)

lemma id_spent_login: "id_spent i s \<Longrightarrow> id_spent i (snd (login H ld drawn s))"
  by (auto simp: id_spent_def login_def split: option.splits)

lemma id_spent_logout: "id_spent i s \<Longrightarrow> id_spent i (snd (logout token s))"
  by (auto simp: id_spent_def logout_def split: option.splits)

lemma id_spent_create_task: "id_spent i s \<Longrightarrow> id_spent i (snd (create_task d token now s))"
  by (auto simp: id_spent_def create_task_def Let_def split: sum.splits)

lemma id_spent_update_task:
  assumes "id_spent i s"
  shows "id_spent i (snd (update_task tid d token now s))"
proof (cases "get_current_user token s")
  case (Inl e)
  with assms show ?thesis by (simp add: update_task_def)
next
  case (Inr u)
  show ?thesis
  proof (cases "update_task_loop (tasks_db s) tid u d now")
    case None
    with Inr assms show ?thesis by (simp add: update_task_def)
  next
    case (Some p)
    obtain t' db where p: "p = (t', db)" by (cases p)
    from update_task_loop_ids[OF Some[unfolded p]]
    have "set (map id_task db) = set (map id_task (tasks_db s))"
      by simp
    then have "list_all (\<lambda>t. id_task t \<noteq> i) db = list_all (\<lambda>t. id_task t \<noteq> i) (tasks_db s)"
      unfolding list_all_iff by (metis (mono_tags, lifting) image_iff list.set_map)
    with Inr Some p assms show ?thesis
      by (simp add: update_task_def id_spent_def)
  qed
qed

lemma id_spent_delete_task:
  assumes "id_spent i s"
  shows "id_spent i (snd (delete_task tid token s))"
proof (cases "get_current_user token s")
  case (Inl e)
  with assms show ?thesis by (simp add: delete_task_def)
next
  case (Inr u)
  show ?thesis
  proof (cases "delete_task_loop (tasks_db s) tid u")
    case None
    with Inr assms show ?thesis by (simp add: delete_task_def)
  next
    case (Some p)
    obtain t db where p: "p = (t, db)" by (cases p)
    from delete_task_loop_Some[OF Some[unfolded p]] obtain pre post where
      "tasks_db s = pre @ t # post" "db = pre @ post"
      by blast
    with Inr Some p assms show ?thesis
      by (auto simp: delete_task_def id_spent_def)
  qed
qed

lemma id_spent_step: "id_spent i s \<Longrightarrow> id_spent i (step H r s)"
  by (cases r)
     (simp_all add: id_spent_register id_spent_login id_spent_logout id_spent_create_task
        id_spent_update_task id_spent_delete_task get_tasks_state get_task_state)

lemma id_spent_run: "id_spent i s \<Longrightarrow> id_spent i (run H rs s)"
  by (induction rs arbitrary: s) (simp_all add: run_def id_spent_step)

text \<open>
  \<^bold>\<open>C7.\<close> In every state of the service, a \<open>delete_task\<close> that succeeds returns a task
  of \<open>tasks_db\<close> that has the given id and belongs to the caller, and leaves the state
  with that one entry removed from the list. From then on, after any further calls of
  the handlers, no task of \<open>tasks_db\<close> has that id, and \<open>get_task\<close>, \<open>update_task\<close> and
  \<open>delete_task\<close> on it, with any token that resolves, raise \<open>TaskNotFound\<close> and change
  nothing.
\<close>

theorem C7_deleted_task_stays_not_found:
  assumes "s = run H rs init_state"
      and "delete_task task_id token s = (Inr (msg, t), s1)"
      and "s2 = run H rs' s1"
      and "get_current_user token' s2 = Inr user'"
  shows "t \<in> set (tasks_db s) \<and> id_task t = task_id \<and>
         (\<exists>user. get_current_user token s = Inr user \<and> user_id t = id_user user) \<and>
         (\<exists>pre post. tasks_db s = pre @ t # post \<and> s1 = s\<lparr>tasks_db := pre @ post\<rparr>) \<and>
         (\<forall>x \<in> set (tasks_db s2). id_task x \<noteq> task_id) \<and>
         get_task task_id token' s2 = (Inl TaskNotFound, s2) \<and>
         update_task task_id task_data token' now s2 = (Inl TaskNotFound, s2) \<and>
         delete_task task_id token' s2 = (Inl TaskNotFound, s2)"
proof -
  from assms(2) obtain user where user: "get_current_user token s = Inr user"
    by (auto simp: delete_task_def split: sum.splits)
  with assms(2) obtain db where
    loop: "delete_task_loop (tasks_db s) task_id user = Some (t, db)"
    and s1: "s1 = s\<lparr>tasks_db := db\<rparr>"
    by (auto simp: delete_task_def split: option.splits)
  from delete_task_loop_Some[OF loop] obtain pre post where
    split: "tasks_db s = pre @ t # post" "db = pre @ post"
    and t: "id_task t = task_id" "user_id t = id_user user"
    by blast
  have inv: "sorted_wrt (<) (map id_task (tasks_db s))"
    "\<forall>x \<in> set (tasks_db s). id_task x < current_task_id s"
    using run_task_ids[of H rs] assms(1) by simp_all
  from inv(1) split t(1) have "\<forall>x \<in> set (pre @ post). id_task x \<noteq> task_id"
    by (auto simp: sorted_wrt_append)
  moreover from inv(2) split t(1) have "task_id < current_task_id s"
    by simp
  ultimately have "id_spent task_id s1"
    using s1 split(2) by (simp add: id_spent_def list_all_iff)
  then have "id_spent task_id s2"
    unfolding assms(3) by (rule id_spent_run)
  then have gone: "\<forall>x \<in> set (tasks_db s2). id_task x \<noteq> task_id"
    by (simp add: id_spent_def list_all_iff)
  then have "\<forall>x \<in> set (tasks_db s2). \<not> (id_task x = task_id \<and> user_id x = id_user user')"
    by simp
  from no_match_not_found[OF assms(4) this] gone user t split s1 show ?thesis
    by auto
qed

theorem C7_deleted_task_stays_not_found_witness:
  "example_state = run example_digest example_requests init_state \<and>
   delete_task 3 ''T1'' example_state =
     (Inr (''Tarea eliminada'',
           \<lparr>title = ''Pay rent'', description = Some ''before Friday'', priority = ''alta'',
            status = ''en curso'', id_task = 3, user_id = 1,
            created_at = ''2024-03-07 09:05'', updated_at = ''2024-03-07 09:05''\<rparr>),
      after_delete) \<and>
   get_current_user ''T1''
       (run example_digest [CreateTask (TaskCreate_validate pay_rent) ''T1'' half_past_ten]
          after_delete)
     = Inr \<lparr>email = ''a@x.com'', name = ''Ann'', id_user = 1\<rparr> \<and>
   map id_task
     (tasks_db (run example_digest [CreateTask (TaskCreate_validate pay_rent) ''T1'' half_past_ten]
        after_delete)) = [1, 2, 4] \<and>
   fst (get_task 3 ''T1''
     (run example_digest [CreateTask (TaskCreate_validate pay_rent) ''T1'' half_past_ten]
        after_delete)) = Inl TaskNotFound \<and>
   fst (update_task 3 (TaskCreate_validate buy_milk) ''T1'' half_past_ten
     (run example_digest [CreateTask (TaskCreate_validate pay_rent) ''T1'' half_past_ten]
        after_delete)) = Inl TaskNotFound \<and>
   fst (delete_task 3 ''T1''
     (run example_digest [CreateTask (TaskCreate_validate pay_rent) ''T1'' half_past_ten]
        after_delete)) = Inl TaskNotFound"
proof -
  let ?s2 = "run example_digest [CreateTask (TaskCreate_validate pay_rent) ''T1'' half_past_ten]
               after_delete"
  have h1: "example_state = run example_digest example_requests init_state"
    by (simp add: example_run)
  have h2: "delete_task 3 ''T1'' example_state =
     (Inr (''Tarea eliminada'',
           \<lparr>title = ''Pay rent'', description = Some ''before Friday'', priority = ''alta'',
            status = ''en curso'', id_task = 3, user_id = 1,
            created_at = ''2024-03-07 09:05'', updated_at = ''2024-03-07 09:05''\<rparr>),
      after_delete)"
    by (simp add: after_delete_def example_state_def delete_task_def get_current_user_def)
  have h3: "?s2 = ?s2" by simp
  have h4: "get_current_user ''T1'' ?s2 = Inr \<lparr>email = ''a@x.com'', name = ''Ann'', id_user = 1\<rparr>"
    by (simp add: run_def after_delete_def example_state_def delete_task_def
          get_current_user_def create_task_def Let_def)
  have ids: "map id_task (tasks_db ?s2) = [1, 2, 4]"
    by (simp add: run_def after_delete_def example_state_def delete_task_def
          get_current_user_def create_task_def Let_def)
  from C7_deleted_task_stays_not_found[OF h1 h2 h3 h4, of "TaskCreate_validate buy_milk" half_past_ten]
  have "get_task 3 ''T1'' ?s2 = (Inl TaskNotFound, ?s2)"
    "update_task 3 (TaskCreate_validate buy_milk) ''T1'' half_past_ten ?s2 = (Inl TaskNotFound, ?s2)"
    "delete_task 3 ''T1'' ?s2 = (Inl TaskNotFound, ?s2)"
    by simp_all
  then have "fst (get_task 3 ''T1'' ?s2) = Inl TaskNotFound"
    "fst (update_task 3 (TaskCreate_validate buy_milk) ''T1'' half_past_ten ?s2) = Inl TaskNotFound"
    "fst (delete_task 3 ''T1'' ?s2) = Inl TaskNotFound"
    by simp_all
  with h1 h2 h4 ids show ?thesis
    by (intro conjI)
qed

subsection \<open>Login and the life of a token\<close>

lemma map_of_set_token:
  "map_option (\<lambda>ud. (ud_id ud, ud_name ud, password_hash ud)) (map_of (set_token e tok db) k) =
     map_option (\<lambda>ud. (ud_id ud, ud_name ud, password_hash ud)) (map_of db k)"
  by (induction db) (auto simp: set_token_def split: if_splits)

lemma map_of_logout_loop:
  "logout_loop db tok = Some db' \<Longrightarrow>
     map_option (\<lambda>ud. (ud_id ud, ud_name ud, password_hash ud)) (map_of db' k) =
     map_option (\<lambda>ud. (ud_id ud, ud_name ud, password_hash ud)) (map_of db k)"
  by (induction db tok arbitrary: db' rule: logout_loop.induct) (auto split: if_splits)

lemma logout_loop_entries:
  "logout_loop db tok = Some db' \<Longrightarrow> (k, u) \<in> set db' \<Longrightarrow>
     (k, u) \<in> set db \<or> ud_token u = None"
  by (induction db tok arbitrary: db' rule: logout_loop.induct) (auto split: if_splits)

lemma account_of_login: "account_of em (snd (login H ld drawn s)) = account_of em s"
  by (simp add: login_def account_of_def map_of_set_token split: option.splits)

lemma account_of_logout: "account_of em (snd (logout tok s)) = account_of em s"
  by (simp add: logout_def account_of_def map_of_logout_loop split: option.splits)

lemma account_of_create_task: "account_of em (snd (create_task d tok now s)) = account_of em s"
  by (simp add: create_task_def account_of_def Let_def split: sum.splits)

lemma account_of_update_task:
  "account_of em (snd (update_task tid d tok now s)) = account_of em s"
  by (simp add: update_task_def account_of_def split: sum.splits option.splits)

lemma account_of_delete_task: "account_of em (snd (delete_task tid tok s)) = account_of em s"
  by (simp add: delete_task_def account_of_def split: sum.splits option.splits)

lemma account_of_register:
  assumes "account_of em s = Some a"
  shows "account_of em (snd (register H ud s)) = Some a"
proof (cases "email ud \<in> fst ` set (users_db s)")
  case True
  with assms show ?thesis by (simp add: register_def)
next
  case False
  from assms obtain z where "map_of (users_db s) em = Some z"
    by (auto simp: account_of_def)
  then have "em \<in> fst ` set (users_db s)"
    by (auto dest: map_of_SomeD intro: rev_image_eqI)
  with False have "email ud \<noteq> em" by auto
  with False have "account_of em (snd (register H ud s)) = account_of em s"
    by (simp add: register_def Let_def account_of_def update_conv')
  with assms show ?thesis by simp
qed

lemma account_of_step:
  "account_of em s = Some a \<Longrightarrow> account_of em (step H r s) = Some a"
  by (cases r)
     (simp_all add: account_of_register account_of_login account_of_logout
        account_of_create_task account_of_update_task account_of_delete_task
        get_tasks_state get_task_state)

lemma account_of_run: "account_of em s = Some a \<Longrightarrow> account_of em (run H rs s) = Some a"
  by (induction rs arbitrary: s) (simp_all add: run_def account_of_step)

lemma held_only_by_step:
  assumes "held_only_by em t s" and "draws r \<noteq> Some t"
  shows "held_only_by em t (step H r s)"
proof (cases r)
  case (Register ud)
  with assms show ?thesis
    by (auto simp: held_only_by_def register_def Let_def update_fresh_key list_all_iff)
next
  case (Login ld drawn)
  with assms show ?thesis
    by (fastforce simp: held_only_by_def login_def set_token_def list_all_iff
          split: option.splits if_splits)
next
  case (Logout tok)
  with assms show ?thesis
    using logout_loop_entries[of "users_db s" tok]
    by (fastforce simp: held_only_by_def logout_def list_all_iff split: option.splits)
next
  case (GetTasks tok)
  with assms show ?thesis by (simp add: get_tasks_state)
next
  case (CreateTask d tok now)
  with assms show ?thesis
    by (simp add: create_task_def held_only_by_def Let_def split: sum.splits)
next
  case (UpdateTask tid d tok now)
  with assms show ?thesis
    by (auto simp: update_task_def held_only_by_def split: sum.splits option.splits)
next
  case (DeleteTask tid tok)
  with assms show ?thesis
    by (auto simp: delete_task_def held_only_by_def split: sum.splits option.splits)
next
  case (GetTask tid tok)
  with assms show ?thesis by (simp add: get_task_state)
qed

lemma held_only_by_run:
  "held_only_by em t s \<Longrightarrow> Some t \<notin> draws ` set rs \<Longrightarrow> held_only_by em t (run H rs s)"
proof (induction rs arbitrary: s)
  case Nil
  then show ?case by (simp add: run_def)
next
  case (Cons r rs)
  from Cons.prems have "held_only_by em t (step H r s)"
    by (intro held_only_by_step) auto
  from Cons.IH[OF this] Cons.prems(2) show ?case
    by (simp add: run_def)
qed

lemma resolve_after_set_token:
  assumes "\<forall>(k, u) \<in> set db. ud_token u \<noteq> Some t" and "map_of db em = Some ud"
  shows "get_current_user_loop (set_token em t db) t =
           Inr \<lparr>email = em, name = ud_name ud, id_user = ud_id ud\<rparr>"
  using assms by (induction db) (auto simp: set_token_def)

text \<open>
  \<^bold>\<open>C2\<close>, as stated, fails: \<open>login\<close> stores whatever \<open>secrets.token_hex\<close> hands it and
  checks nothing. In the worked run Ann holds \<open>"T1"\<close>. If Bob's login draws \<open>"T1"\<close> too,
  it returns \<open>"T1"\<close> with Bob's identity, and \<open>get_current_user\<close> maps \<open>"T1"\<close> to Ann,
  who comes first in the dictionary. If Ann's second login draws the token of her first
  again, or if Bob's login has drawn it in between, the first token still resolves after
  her second login.
\<close>

theorem C2_counterexample:
  "run example_digest example_requests init_state = example_state \<and>
   fst (login example_digest bob_login ''T1'' example_state) =
     Inr (''Login exitoso'', ''T1'', \<lparr>email = ''b@x.com'', name = ''Bob'', id_user = 2\<rparr>) \<and>
   get_current_user ''T1'' (snd (login example_digest bob_login ''T1'' example_state)) =
     Inr \<lparr>email = ''a@x.com'', name = ''Ann'', id_user = 1\<rparr> \<and>
   get_current_user ''T3''
     (run example_digest [Login ann_login ''T3'', Login ann_login ''T3''] example_state) =
     Inr \<lparr>email = ''a@x.com'', name = ''Ann'', id_user = 1\<rparr> \<and>
   get_current_user ''T3''
     (run example_digest [Login ann_login ''T3'', Login bob_login ''T3'', Login ann_login ''T5'']
        example_state) =
     Inr \<lparr>email = ''b@x.com'', name = ''Bob'', id_user = 2\<rparr>"
  by (simp add: example_run)
     (simp add: run_def example_state_def example_defs login_def verify_user_def
        hash_password_def set_token_def get_current_user_def)

text \<open>
  \<^bold>\<open>C2\<close>, amended. Let an account be stored under \<open>em\<close> with the digest of \<open>pw\<close>, and
  let the token \<open>t1\<close> drawn at a login be one that no account holds. The login succeeds and
  returns \<open>t1\<close> with the account's identity, and \<open>get_current_user\<close> maps \<open>t1\<close> back
  to that identity (email, name and id). After any further calls of the handlers in
  which no login draws \<open>t1\<close> again, a second login of the account, drawing another
  token, succeeds too, and from then on \<open>get_current_user\<close> on \<open>t1\<close> raises
  \<open>InvalidToken\<close> (status 401).
\<close>

theorem C2_login_token_resolves_until_next_login:
  assumes "map_of (users_db s) em = Some ud"
      and "password_hash ud = hash_password H pw"
      and "\<not> token_held t1 s"
      and "s1 = snd (login H \<lparr>login_email = em, login_password = pw\<rparr> t1 s)"
      and "Some t1 \<notin> draws ` set rs"
      and "s1' = run H rs s1"
      and "t2 \<noteq> t1"
      and "s2 = snd (login H \<lparr>login_email = em, login_password = pw\<rparr> t2 s1')"
  shows "login H \<lparr>login_email = em, login_password = pw\<rparr> t1 s =
           (Inr (''Login exitoso'', t1, \<lparr>email = em, name = ud_name ud, id_user = ud_id ud\<rparr>),
            s1) \<and>
         get_current_user t1 s1 = Inr \<lparr>email = em, name = ud_name ud, id_user = ud_id ud\<rparr> \<and>
         login H \<lparr>login_email = em, login_password = pw\<rparr> t2 s1' =
           (Inr (''Login exitoso'', t2, \<lparr>email = em, name = ud_name ud, id_user = ud_id ud\<rparr>),
            s2) \<and>
         get_current_user t1 s2 = Inl InvalidToken"
proof -
  let ?ld = "\<lparr>login_email = em, login_password = pw\<rparr>"
  let ?U = "\<lparr>email = em, name = ud_name ud, id_user = ud_id ud\<rparr>"
  have verify: "verify_user H em pw s = Some ?U"
    using assms(1,2) by (simp add: verify_user_def)
  then have db1: "users_db s1 = set_token em t1 (users_db s)"
    and first: "login H ?ld t1 s = (Inr (''Login exitoso'', t1, ?U), s1)"
    using assms(4) by (simp_all add: login_def)
  from assms(3) have unheld: "\<forall>(k, u) \<in> set (users_db s). ud_token u \<noteq> Some t1"
    by (auto simp: token_held_def)
  from resolve_after_set_token[OF unheld assms(1)] db1
  have resolve: "get_current_user t1 s1 = Inr ?U"
    by (simp add: get_current_user_def)
  have "account_of em s1 = Some (ud_id ud, ud_name ud, password_hash ud)"
    using assms(1) db1 by (simp add: account_of_def map_of_set_token)
  then have "account_of em s1' = Some (ud_id ud, ud_name ud, password_hash ud)"
    unfolding assms(6) by (rule account_of_run)
  then have "verify_user H em pw s1' = Some ?U"
    using assms(2) by (auto simp: account_of_def verify_user_def)
  then have db2: "users_db s2 = set_token em t2 (users_db s1')"
    and second: "login H ?ld t2 s1' = (Inr (''Login exitoso'', t2, ?U), s2)"
    using assms(8) by (simp_all add: login_def)
  have "held_only_by em t1 s1"
    using unheld db1
    by (fastforce simp: held_only_by_def set_token_def list_all_iff split: if_splits)
  then have "held_only_by em t1 s1'"
    unfolding assms(6) using assms(5) by (rule held_only_by_run)
  then have "\<not> token_held t1 s2"
    using db2 assms(7)
    by (fastforce simp: held_only_by_def token_held_def set_token_def list_all_iff
          split: if_splits)
  then have "get_current_user t1 s2 = Inl InvalidToken"
    by (rule get_current_user_unheld)
  with first resolve second show ?thesis
    by simp
qed

theorem C2_login_token_resolves_until_next_login_witness:
  "map_of (users_db example_state) ''a@x.com''
     = Some \<lparr>ud_id = 1, ud_name = ''Ann'', password_hash = ''1wp'', ud_token = Some ''T1''\<rparr> \<and>
   ''1wp'' = hash_password example_digest ''pw1'' \<and>
   \<not> token_held ''T3'' example_state \<and>
   Some ''T3'' \<notin> draws ` set between_logins \<and>
   login example_digest ann_login ''T3'' example_state =
     (Inr (''Login exitoso'', ''T3'', \<lparr>email = ''a@x.com'', name = ''Ann'', id_user = 1\<rparr>),
      snd (login example_digest ann_login ''T3'' example_state)) \<and>
   get_current_user ''T3'' (snd (login example_digest ann_login ''T3'' example_state))
     = Inr \<lparr>email = ''a@x.com'', name = ''Ann'', id_user = 1\<rparr> \<and>
   get_current_user ''T3''
     (snd (login example_digest ann_login ''T5''
        (run example_digest between_logins
           (snd (login example_digest ann_login ''T3'' example_state)))))
     = Inl InvalidToken \<and>
   status_code InvalidToken = 401"
proof -
  let ?ud = "\<lparr>ud_id = 1, ud_name = ''Ann'', password_hash = ''1wp'', ud_token = Some ''T1''\<rparr>"
  have h1: "map_of (users_db example_state) ''a@x.com'' = Some ?ud"
    by (simp add: example_state_def)
  have h2: "password_hash ?ud = hash_password example_digest ''pw1''"
    by (simp add: hash_password_def example_digest_def)
  have h3: "\<not> token_held ''T3'' example_state"
    by (simp add: token_held_def example_state_def)
  have h5: "Some ''T3'' \<notin> draws ` set between_logins"
    by (simp add: between_logins_def)
  have h7: "''T5'' \<noteq> ''T3''"
    by simp
  have code: "status_code InvalidToken = 401"
    by (simp add: InvalidToken_def)
  from C2_login_token_resolves_until_next_login[OF h1 h2 h3 refl h5 refl h7 refl]
  have "login example_digest ann_login ''T3'' example_state =
     (Inr (''Login exitoso'', ''T3'', \<lparr>email = ''a@x.com'', name = ''Ann'', id_user = 1\<rparr>),
      snd (login example_digest ann_login ''T3'' example_state))"
    "get_current_user ''T3'' (snd (login example_digest ann_login ''T3'' example_state))
       = Inr \<lparr>email = ''a@x.com'', name = ''Ann'', id_user = 1\<rparr>"
    "get_current_user ''T3''
     (snd (login example_digest ann_login ''T5''
        (run example_digest between_logins
           (snd (login example_digest ann_login ''T3'' example_state)))))
     = Inl InvalidToken"
    by (simp_all add: ann_login_def)
  with h1 h2 h3 h5 code show ?thesis
    by simp
qed

end
